theory Spec2Isabelle
  imports Main
begin

section \<open>The hot-backup cursor of cur\_backup.c\<close>

text \<open>
  A shallow embedding of \<^verbatim>\<open>src/third_party/wiredtiger/src/cursor/cur_backup.c\<close>.
  Every C function of the file is one HOL function of the same name (the leading
  underscores dropped). A function that mutates the connection, the session, the file
  system or the cursor takes them and returns them updated, next to its return code.
  The locks of the file (checkpoint, schema, table and hot-backup lock) order concurrent
  sessions and change no data; the model is the sequential reading of one session.
\<close>

subsection \<open>Return codes\<close>

text \<open>
  The C functions return an int: 0, an errno value or a WiredTiger code. The macro
  \<^verbatim>\<open>WT_RET_MSG(session, EINVAL, msg)\<close> returns the code and hands the message to the
  session's error stream; the model keeps the message with the code, since two failures of
  \<^verbatim>\<open>__backup_start\<close> differ only in it. \<open>ERR c\<close> is any other code a collaborator reports.
  \<open>C_UNDEFINED\<close> is no code of the program: it is the model's value for a step the C
  language leaves undefined (a read past the end of the array, a write to a NULL stream).
\<close>

datatype wt_error =
    WT_NOTFOUND
  | EINVAL string
  | ENOTSUP string
  | ERR int
  | C_UNDEFINED

type_synonym ret = "wt_error option"

text \<open>
  Modelled from the spec: the macro \<^verbatim>\<open>WT_TRET\<close> is declared in a header that is not under
  src/. Section 7 of the spec: an error during teardown is collected and reported and does
  not prevent the remaining steps from running. The first error collected is the one kept.
\<close>

definition WT_TRET :: "ret \<Rightarrow> ret \<Rightarrow> ret" where
  "WT_TRET r a = (case r of None \<Rightarrow> a | Some e \<Rightarrow> Some e)"

text \<open>
  Modelled from the spec: the macro \<^verbatim>\<open>WT_PREFIX_MATCH(str, pfx)\<close> is declared in a header that
  is not under src/; it holds when \<open>str\<close> starts with \<open>pfx\<close>.
\<close>

definition WT_PREFIX_MATCH :: "string \<Rightarrow> string \<Rightarrow> bool" where
  "WT_PREFIX_MATCH str pfx = (take (length pfx) str = pfx)"

subsection \<open>The cursor\<close>

text \<open>
  \<^verbatim>\<open>WT_CURSOR_BACKUP\<close>. The fields of \<^verbatim>\<open>iface\<close> the file touches are the key and the four
  standard flags: \<^verbatim>\<open>WT_CURSTD_KEY_SET\<close> is the mask of \<open>KEY_EXT\<close> and \<open>KEY_INT\<close>,
  \<^verbatim>\<open>WT_CURSTD_VALUE_SET\<close> the mask of \<open>VALUE_EXT\<close> and \<open>VALUE_INT\<close>.
  \<open>cb_list\<close> is the C array \<^verbatim>\<open>char **list\<close>: \<open>None\<close> is the NULL pointer, and each cell is
  either NULL (\<open>None\<close>) or a name. The length of the cell list is the allocated size
  (\<^verbatim>\<open>list_allocated\<close>, counted in cells). \<open>cb_bfs\<close> is the stream \<^verbatim>\<open>bfs\<close>: \<open>None\<close> is NULL,
  \<open>Some f\<close> a stream open on the file \<open>f\<close>.
\<close>

record wt_cursor_backup =
  key_data :: "string option"
  key_size :: nat
  curstd_key_ext :: bool
  curstd_key_int :: bool
  curstd_value_ext :: bool
  curstd_value_int :: bool
  cb_next :: nat
  cb_bfs :: "string option"
  cb_maxid :: nat
  cb_list :: "string option list option"
  cb_list_next :: nat
  curbackup_locker :: bool
  curbackup_dup :: bool

text \<open>
  \<^verbatim>\<open>__curbackup_next\<close>. The macros \<^verbatim>\<open>CURSOR_API_CALL\<close> and \<^verbatim>\<open>API_END_RET\<close> enter and leave the
  session's API scope and pass \<open>ret\<close> through; they are not under src/ and touch none of
  the modelled fields. The read \<^verbatim>\<open>cb->list[cb->next]\<close> is inside the array only when
  \<open>cb_next\<close> is below the allocated size.
\<close>

definition curbackup_next :: "wt_cursor_backup \<Rightarrow> ret \<times> wt_cursor_backup" where
  "curbackup_next cb =
    (case cb_list cb of
       None \<Rightarrow> (Some WT_NOTFOUND, cb\<lparr>curstd_key_ext := False, curstd_key_int := False\<rparr>)
     | Some cells \<Rightarrow>
         if length cells \<le> cb_next cb then (Some C_UNDEFINED, cb)
         else
           (case cells ! cb_next cb of
              None \<Rightarrow> (Some WT_NOTFOUND, cb\<lparr>curstd_key_ext := False, curstd_key_int := False\<rparr>)
            | Some name \<Rightarrow>
                (None, cb\<lparr>key_data := Some name, key_size := length name + 1,
                          cb_next := cb_next cb + 1, curstd_key_int := True\<rparr>)))"

text \<open>\<^verbatim>\<open>__curbackup_reset\<close>.\<close>

definition curbackup_reset :: "wt_cursor_backup \<Rightarrow> ret \<times> wt_cursor_backup" where
  "curbackup_reset cb =
    (None, cb\<lparr>cb_next := 0, curstd_key_ext := False, curstd_key_int := False,
              curstd_value_ext := False, curstd_value_int := False\<rparr>)"

text \<open>
  The file list a cursor holds, as the spec names it: the names before the first NULL
  cell. \<open>terminated\<close> says that the array has its NULL cell.
\<close>

definition file_list :: "wt_cursor_backup \<Rightarrow> string list" where
  "file_list cb =
    (case cb_list cb of
       None \<Rightarrow> []
     | Some cells \<Rightarrow> map the (takeWhile (\<lambda>c. c \<noteq> None) cells))"

definition terminated :: "wt_cursor_backup \<Rightarrow> bool" where
  "terminated cb = (case cb_list cb of None \<Rightarrow> True | Some cells \<Rightarrow> None \<in> set cells)"

text \<open>
  \<open>next_n n cb\<close> calls \<^verbatim>\<open>next\<close> \<open>n\<close> times in a row and lists, for each call, its return code
  and the key the cursor holds after it.
\<close>

fun next_n :: "nat \<Rightarrow> wt_cursor_backup \<Rightarrow> (ret \<times> string option) list \<times> wt_cursor_backup" where
  "next_n 0 cb = ([], cb)"
| "next_n (Suc n) cb =
    (case curbackup_next cb of
       (r, cb1) \<Rightarrow> (case next_n n cb1 of (rs, cb2) \<Rightarrow> ((r, key_data cb1) # rs, cb2)))"

subsection \<open>The environment of the file\<close>

text \<open>
  What cur\_backup.c reads and calls but does not define. The file names and the two
  catalog names are constants of headers that are not under src/, so they are parameters.
  The configuration of the connection that the file only reads comes next: \<open>conn_log\<close> is
  \<^verbatim>\<open>conn->log != NULL\<close>, \<open>conn_log_archive\<close> the flag \<^verbatim>\<open>WT_CONN_LOG_ARCHIVE\<close>, \<open>metadata\<close> the
  catalog as (name, descriptor) pairs in the order a walk visits them. The rest is the
  answer of each collaborator the file calls: the return code for the argument it is called
  with (\<open>None\<close> is 0), or the value it hands back.
\<close>

record env =
  WT_BACKUP_TMP :: string
  WT_INCREMENTAL_BACKUP :: string
  WT_INCREMENTAL_SRC :: string
  WT_METADATA_BACKUP :: string
  WT_BASECONFIG :: string
  WT_USERCONFIG :: string
  WT_WIREDTIGER :: string
  WT_LAS_URI :: string
  WT_SYSTEM_PREFIX :: string
  conn_log :: bool
  conn_log_archive :: bool
  ckpt_most_recent :: nat
  metadata :: "(string \<times> string) list"
  calloc_one :: ret
  inmem_unsupported_op :: ret
  cursor_init :: ret
  fopen_ret :: "string \<Rightarrow> ret"
  fclose_ret :: "string \<Rightarrow> ret"
  fprintf_ret :: "string \<Rightarrow> ret"
  sync_and_rename_ret :: "string \<Rightarrow> ret"
  fs_exist_ret :: "string \<Rightarrow> ret"
  remove_ret :: "string \<Rightarrow> ret"
  log_get_backup_files :: "bool \<Rightarrow> wt_error + string list \<times> nat"
  fs_directory_list_free :: ret
  realloc_ret :: "nat \<Rightarrow> ret"
  strdup_ret :: "string \<Rightarrow> ret"
  scr_alloc :: ret
  buf_fmt_ret :: "string \<Rightarrow> ret"
  schema_worker_names :: "string \<Rightarrow> wt_error + string list"

text \<open>
  The argument \<^verbatim>\<open>cfg\<close> of \<^verbatim>\<open>__wt_curbackup_open\<close>, as the configuration parser reads it for
  \<^verbatim>\<open>__backup_uri\<close>: the return code of \<^verbatim>\<open>__wt_config_gets\<close> for the key \<open>target\<close>, the
  (key, value) items \<^verbatim>\<open>__wt_config_next\<close> yields, and the code it returns after the last
  item (\<open>WT_NOTFOUND\<close> at the end of a well-formed list).
\<close>

record backup_cfg =
  target_gets :: ret
  target_items :: "(string \<times> string) list"
  target_end :: wt_error

text \<open>
  The state the file mutates outside the cursor. Of the connection: \<open>hot_backup_start\<close>
  and \<open>hot_backup_list\<close> (the pointer \<^verbatim>\<open>conn->hot_backup_list\<close> is an alias of the cursor's
  array, which is complete when it is published; the model holds its value). Of the
  session: the flags \<^verbatim>\<open>WT_SESSION_BACKUP_CURSOR\<close> and \<^verbatim>\<open>WT_SESSION_BACKUP_DUP\<close>, and whether
  \<^verbatim>\<open>session->bkp_cursor\<close> is set (it points to the cursor being opened, which the model
  passes along). Of the file system: the files of the database directory with their text.
\<close>

record world =
  hot_backup_start :: nat
  hot_backup_list :: "string option list option"
  session_backup_cursor :: bool
  session_backup_dup :: bool
  bkp_cursor_set :: bool
  files :: "string \<rightharpoonup> string"

subsection \<open>File-system collaborators\<close>

text \<open>
  Modelled from the spec: the stream and file functions are not under src/. Section 6 of
  the spec lists them: exclusive-create, write-stream, close, atomic-rename,
  existence-check and best-effort-remove. Each either fails with the code the environment
  gives, changing nothing, or does its work. A stream opened for writing starts an empty
  file.
\<close>

definition wt_fopen :: "env \<Rightarrow> world \<Rightarrow> string \<Rightarrow> ret \<times> world \<times> string option" where
  "wt_fopen e w name =
    (case fopen_ret e name of
       Some err \<Rightarrow> (Some err, w, None)
     | None \<Rightarrow> (None, w\<lparr>files := (files w)(name \<mapsto> [])\<rparr>, Some name))"

definition wt_fprintf :: "env \<Rightarrow> world \<Rightarrow> string option \<Rightarrow> string \<Rightarrow> ret \<times> world" where
  "wt_fprintf e w fs txt =
    (case fs of
       None \<Rightarrow> (Some C_UNDEFINED, w)
     | Some f \<Rightarrow>
         (case fprintf_ret e txt of
            Some err \<Rightarrow> (Some err, w)
          | None \<Rightarrow>
              (None, w\<lparr>files := (files w)(f \<mapsto> (case files w f of None \<Rightarrow> [] | Some old \<Rightarrow> old) @ txt)\<rparr>)))"

text \<open>
  \<^verbatim>\<open>__wt_sync_and_rename(session, &cb->bfs, from, to)\<close>: the stream is closed and cleared
  whatever happens; on success the file \<open>from\<close> becomes the file \<open>to\<close>.
\<close>

definition wt_sync_and_rename :: "env \<Rightarrow> world \<Rightarrow> string \<Rightarrow> string \<Rightarrow> ret \<times> world" where
  "wt_sync_and_rename e w from to =
    (case sync_and_rename_ret e to of
       Some err \<Rightarrow> (Some err, w)
     | None \<Rightarrow> (None, w\<lparr>files := ((files w)(from := None))(to := files w from)\<rparr>))"

definition wt_fs_exist :: "env \<Rightarrow> world \<Rightarrow> string \<Rightarrow> wt_error + bool" where
  "wt_fs_exist e w name =
    (case fs_exist_ret e name of Some err \<Rightarrow> Inl err | None \<Rightarrow> Inr (files w name \<noteq> None))"

definition wt_remove_if_exists :: "env \<Rightarrow> world \<Rightarrow> string \<Rightarrow> ret \<times> world" where
  "wt_remove_if_exists e w name =
    (case remove_ret e name of
       Some err \<Rightarrow> (Some err, w)
     | None \<Rightarrow> (None, w\<lparr>files := (files w)(name := None)\<rparr>))"

text \<open>
  Modelled from the spec: \<^verbatim>\<open>__wt_metadata_search\<close> is not under src/. It looks the name up in
  the catalog and hands back its current descriptor; a name the catalog does not hold is
  not found.
\<close>

definition wt_metadata_search :: "env \<Rightarrow> string \<Rightarrow> wt_error + string" where
  "wt_metadata_search e name =
    (case map_of (metadata e) name of None \<Rightarrow> Inl WT_NOTFOUND | Some v \<Rightarrow> Inr v)"

subsection \<open>Building the list\<close>

text \<open>
  Modelled from the spec: the macro \<^verbatim>\<open>__wt_realloc_def\<close> is declared in a header that is not
  under src/. It makes room for \<open>number\<close> cells, the new cells zeroed, or fails and leaves
  the array as it is.
\<close>

definition wt_realloc_def ::
  "env \<Rightarrow> nat \<Rightarrow> string option list option \<Rightarrow> wt_error + string option list" where
  "wt_realloc_def e number l =
    (case realloc_ret e number of
       Some err \<Rightarrow> Inl err
     | None \<Rightarrow>
         Inr (case l of
                None \<Rightarrow> replicate number None
              | Some cells \<Rightarrow> cells @ replicate (number - length cells) None))"

text \<open>
  \<^verbatim>\<open>__backup_list_append\<close>. After the reallocation the cells \<open>list_next\<close> and
  \<open>list_next + 1\<close> are inside the array, so both writes of \<^verbatim>\<open>p[0] = p[1] = NULL\<close> land.
\<close>

definition backup_list_append ::
  "env \<Rightarrow> wt_cursor_backup \<Rightarrow> string \<Rightarrow> ret \<times> wt_cursor_backup" where
  "backup_list_append e cb uri =
    (case wt_realloc_def e (cb_list_next cb + 2) (cb_list cb) of
       Inl err \<Rightarrow> (Some err, cb)
     | Inr cells \<Rightarrow>
         (let p = cells[cb_list_next cb := None, cb_list_next cb + 1 := None];
              name = (if WT_PREFIX_MATCH uri ''file:'' then drop (length ''file:'') uri else uri)
          in case strdup_ret e name of
               Some err \<Rightarrow> (Some err, cb\<lparr>cb_list := Some p\<rparr>)
             | None \<Rightarrow>
                 (None, cb\<lparr>cb_list := Some (p[cb_list_next cb := Some name]),
                           cb_list_next := cb_list_next cb + 1\<rparr>)))"

text \<open>The \<^verbatim>\<open>for\<close> loop of \<^verbatim>\<open>__backup_log_append\<close>: \<^verbatim>\<open>WT_ERR\<close> leaves it at the first error.\<close>

fun backup_log_append_loop ::
  "env \<Rightarrow> wt_cursor_backup \<Rightarrow> string list \<Rightarrow> ret \<times> wt_cursor_backup" where
  "backup_log_append_loop e cb [] = (None, cb)"
| "backup_log_append_loop e cb (f # fs) =
    (case backup_list_append e cb f of
       (Some err, cb1) \<Rightarrow> (Some err, cb1)
     | (None, cb1) \<Rightarrow> backup_log_append_loop e cb1 fs)"

text \<open>
  \<^verbatim>\<open>__backup_log_append\<close>. \<^verbatim>\<open>__wt_log_get_backup_files\<close> is the log subsystem's: it hands back
  the segment files and the new \<^verbatim>\<open>maxid\<close>, or fails.
\<close>

definition backup_log_append ::
  "env \<Rightarrow> wt_cursor_backup \<Rightarrow> bool \<Rightarrow> ret \<times> wt_cursor_backup" where
  "backup_log_append e cb active =
    (if conn_log e then
       (case log_get_backup_files e active of
          Inl err \<Rightarrow> (WT_TRET (Some err) (fs_directory_list_free e), cb)
        | Inr (logfiles, maxid) \<Rightarrow>
            (case backup_log_append_loop e (cb\<lparr>cb_maxid := maxid\<rparr>) logfiles of
               (r, cb1) \<Rightarrow> (WT_TRET r (fs_directory_list_free e), cb1)))
     else (WT_TRET None (fs_directory_list_free e), cb))"

text \<open>
  \<^verbatim>\<open>__backup_list_uri_append\<close>. The cursor it works on is \<^verbatim>\<open>session->bkp_cursor\<close>, which
  \<^verbatim>\<open>__wt_curbackup_open\<close> has set to the cursor being opened.
\<close>

definition backup_list_uri_append ::
  "env \<Rightarrow> world \<Rightarrow> wt_cursor_backup \<Rightarrow> string \<Rightarrow> ret \<times> world \<times> wt_cursor_backup" where
  "backup_list_uri_append e w cb name =
    (if \<not> WT_PREFIX_MATCH name ''file:'' \<and> \<not> WT_PREFIX_MATCH name ''colgroup:'' \<and>
        \<not> WT_PREFIX_MATCH name ''index:'' \<and> \<not> WT_PREFIX_MATCH name ''lsm:'' \<and>
        \<not> WT_PREFIX_MATCH name (WT_SYSTEM_PREFIX e) \<and> \<not> WT_PREFIX_MATCH name ''table:''
     then (Some (ENOTSUP (''hot backup is not supported for objects of type '' @ name)), w, cb)
     else if name = WT_LAS_URI e then (None, w, cb)
     else
       (case wt_metadata_search e name of
          Inl err \<Rightarrow> (Some err, w, cb)
        | Inr v \<Rightarrow>
            (case wt_fprintf e w (cb_bfs cb) (name @ [CHR 0x0A] @ v @ [CHR 0x0A]) of
               (Some err, w1) \<Rightarrow> (Some err, w1, cb)
             | (None, w1) \<Rightarrow>
                 if WT_PREFIX_MATCH name (WT_SYSTEM_PREFIX e) then (None, w1, cb)
                 else if WT_PREFIX_MATCH name ''file:'' then
                   (case backup_list_append e cb name of (r, cb1) \<Rightarrow> (r, w1, cb1))
                 else (None, w1, cb))))"

text \<open>
  Modelled from the spec: \<^verbatim>\<open>__wt_meta_apply_all\<close> and \<^verbatim>\<open>__wt_schema_worker\<close> are not under
  src/. Section 6 of the spec: the walker invokes the visitor for every catalog entry, and
  stops and propagates on the first visitor error. \<open>name_func_walk\<close> is that walk over the
  names given, with \<^verbatim>\<open>__backup_list_uri_append\<close> as the visitor.
\<close>

fun name_func_walk ::
  "env \<Rightarrow> world \<Rightarrow> wt_cursor_backup \<Rightarrow> string list \<Rightarrow> ret \<times> world \<times> wt_cursor_backup" where
  "name_func_walk e w cb [] = (None, w, cb)"
| "name_func_walk e w cb (n # ns) =
    (case backup_list_uri_append e w cb n of
       (Some err, w1, cb1) \<Rightarrow> (Some err, w1, cb1)
     | (None, w1, cb1) \<Rightarrow> name_func_walk e w1 cb1 ns)"

text \<open>\<^verbatim>\<open>__backup_all\<close>: the walk over the whole catalog.\<close>

definition backup_all :: "env \<Rightarrow> world \<Rightarrow> wt_cursor_backup \<Rightarrow> ret \<times> world \<times> wt_cursor_backup" where
  "backup_all e w cb = name_func_walk e w cb (map fst (metadata e))"

text \<open>
  The call of \<^verbatim>\<open>__wt_schema_worker\<close> in \<^verbatim>\<open>__backup_uri\<close>: the worker fails, or walks the names
  the target stands for (the object and those it depends on).
\<close>

definition schema_worker ::
  "env \<Rightarrow> world \<Rightarrow> wt_cursor_backup \<Rightarrow> string \<Rightarrow> ret \<times> world \<times> wt_cursor_backup" where
  "schema_worker e w cb uri =
    (case schema_worker_names e uri of
       Inl err \<Rightarrow> (Some err, w, cb)
     | Inr ns \<Rightarrow> name_func_walk e w cb ns)"

text \<open>
  The \<^verbatim>\<open>for\<close> loop of \<^verbatim>\<open>__backup_uri\<close> over the items of the target list. \<open>target_list\<close> is
  the loop's own flag, false in the first round only; \<open>found\<close> and \<open>log_only\<close> are
  \<^verbatim>\<open>*foundp\<close> and \<^verbatim>\<open>*log_only\<close>. When the items are used up \<^verbatim>\<open>__wt_config_next\<close> returns
  \<open>terminal\<close>, which \<^verbatim>\<open>WT_ERR_NOTFOUND_OK\<close> turns into 0 when it is \<open>WT_NOTFOUND\<close>; an error
  inside a round goes to \<^verbatim>\<open>err\<close> as it is.
\<close>

fun backup_uri_loop ::
  "env \<Rightarrow> bool \<Rightarrow> wt_error \<Rightarrow> (string \<times> string) list \<Rightarrow> bool \<Rightarrow> world \<Rightarrow> wt_cursor_backup \<Rightarrow>
   bool \<Rightarrow> bool \<Rightarrow> ret \<times> world \<times> wt_cursor_backup \<times> bool \<times> bool" where
  "backup_uri_loop e is_dup terminal [] target_list w cb found log_only =
    ((if terminal = WT_NOTFOUND then None else Some terminal), w, cb, found, log_only)"
| "backup_uri_loop e is_dup terminal ((k, v) # items) target_list w cb found log_only =
    (let found1 = (if \<not> target_list then True else found) in
     if \<not> target_list \<and> scr_alloc e \<noteq> None then (scr_alloc e, w, cb, found1, log_only)
     else if buf_fmt_ret e k \<noteq> None then (buf_fmt_ret e k, w, cb, found1, log_only)
     else if length v \<noteq> 0 then
       (Some (EINVAL (k @ '': invalid backup target: URIs may need quoting'')),
        w, cb, found1, log_only)
     else if WT_PREFIX_MATCH k ''log:'' then
       (if \<not> is_dup \<and> conn_log_archive e then
          (Some (EINVAL ''incremental backup not possible when automatic log archival configured''),
           w, cb, found1, log_only)
        else
          (case backup_log_append e cb False of
             (Some err, cb1) \<Rightarrow> (Some err, w, cb1, found1, \<not> target_list)
           | (None, cb1) \<Rightarrow>
               backup_uri_loop e is_dup terminal items True w cb1 found1 (\<not> target_list)))
     else
       (case schema_worker e w cb k of
          (Some err, w1, cb1) \<Rightarrow> (Some err, w1, cb1, found1, False)
        | (None, w1, cb1) \<Rightarrow>
            backup_uri_loop e is_dup terminal items True w1 cb1 found1 False))"

text \<open>\<^verbatim>\<open>__backup_uri\<close>.\<close>

definition backup_uri ::
  "env \<Rightarrow> world \<Rightarrow> wt_cursor_backup \<Rightarrow> backup_cfg \<Rightarrow> bool \<Rightarrow>
   ret \<times> world \<times> wt_cursor_backup \<times> bool \<times> bool" where
  "backup_uri e w cb cfg is_dup =
    (case target_gets cfg of
       Some err \<Rightarrow> (Some err, w, cb, False, False)
     | None \<Rightarrow>
         backup_uri_loop e is_dup (target_end cfg) (target_items cfg) False w cb False False)"

subsection \<open>Starting and stopping a backup\<close>

text \<open>
  The code of \<^verbatim>\<open>__backup_start\<close> from the label \<^verbatim>\<open>err\<close> to the label \<^verbatim>\<open>done\<close>. \<open>srcfs\<close> and
  \<open>dest\<close> are the locals of that name (\<open>None\<close> is NULL). \<open>dest\<close> is set on every path that
  reaches the label with \<open>ret = 0\<close>.
\<close>

definition backup_start_err ::
  "env \<Rightarrow> world \<Rightarrow> wt_cursor_backup \<Rightarrow> ret \<Rightarrow> string option \<Rightarrow> string option \<Rightarrow>
   ret \<times> world \<times> wt_cursor_backup" where
  "backup_start_err e w cb ret0 srcfs dest =
    (let ret1 = (case srcfs of None \<Rightarrow> ret0 | Some f \<Rightarrow> WT_TRET ret0 (fclose_ret e f));
         (ret2, w2, cb2) =
           (if ret1 = None then
              (case dest of
                 None \<Rightarrow> (Some C_UNDEFINED, w, cb)
               | Some to \<Rightarrow>
                   (case wt_sync_and_rename e w (WT_BACKUP_TMP e) to of
                      (r, w1) \<Rightarrow> (r, w1, cb\<lparr>cb_bfs := None\<rparr>)))
            else (ret1, w, cb));
         w3 = (if ret2 = None
               then w2\<lparr>hot_backup_list := cb_list cb2, session_backup_cursor := True\<rparr>
               else w2)
     in case cb_bfs cb2 of
          None \<Rightarrow> (ret2, w3, cb2)
        | Some f \<Rightarrow> (WT_TRET ret2 (fclose_ret e f), w3, cb2\<lparr>cb_bfs := None\<rparr>))"

text \<open>
  The end of \<^verbatim>\<open>__backup_start\<close> for a cursor that is no duplicate: the names of the
  hot-backup file and of the standard files.
\<close>

definition backup_start_files ::
  "env \<Rightarrow> world \<Rightarrow> wt_cursor_backup \<Rightarrow> bool \<Rightarrow> ret \<times> world \<times> wt_cursor_backup" where
  "backup_start_files e w cb log_only =
    (if log_only then
       (case wt_fopen e w (WT_INCREMENTAL_SRC e) of
          (Some err, w1, srcfs) \<Rightarrow>
            backup_start_err e w1 cb (Some err) srcfs (Some (WT_INCREMENTAL_BACKUP e))
        | (None, w1, srcfs) \<Rightarrow>
            (case backup_list_append e cb (WT_INCREMENTAL_BACKUP e) of
               (r, cb1) \<Rightarrow> backup_start_err e w1 cb1 r srcfs (Some (WT_INCREMENTAL_BACKUP e))))
     else
       (case backup_list_append e cb (WT_METADATA_BACKUP e) of
          (Some err, cb1) \<Rightarrow> backup_start_err e w cb1 (Some err) None (Some (WT_METADATA_BACKUP e))
        | (None, cb1) \<Rightarrow>
       (case wt_fs_exist e w (WT_BASECONFIG e) of
          Inl err \<Rightarrow> backup_start_err e w cb1 (Some err) None (Some (WT_METADATA_BACKUP e))
        | Inr exist1 \<Rightarrow>
       (case (if exist1 then backup_list_append e cb1 (WT_BASECONFIG e) else (None, cb1)) of
          (Some err, cb2) \<Rightarrow> backup_start_err e w cb2 (Some err) None (Some (WT_METADATA_BACKUP e))
        | (None, cb2) \<Rightarrow>
       (case wt_fs_exist e w (WT_USERCONFIG e) of
          Inl err \<Rightarrow> backup_start_err e w cb2 (Some err) None (Some (WT_METADATA_BACKUP e))
        | Inr exist2 \<Rightarrow>
       (case (if exist2 then backup_list_append e cb2 (WT_USERCONFIG e) else (None, cb2)) of
          (Some err, cb3) \<Rightarrow> backup_start_err e w cb3 (Some err) None (Some (WT_METADATA_BACKUP e))
        | (None, cb3) \<Rightarrow>
       (case backup_list_append e cb3 (WT_WIREDTIGER e) of
          (r, cb4) \<Rightarrow> backup_start_err e w cb4 r None (Some (WT_METADATA_BACKUP e)))))))))"

text \<open>
  \<^verbatim>\<open>__backup_start\<close> from the call of \<^verbatim>\<open>__backup_uri\<close> on. A duplicate that is for logs only
  leaves by \<^verbatim>\<open>goto done\<close>; every error leaves by \<^verbatim>\<open>err\<close>.
\<close>

definition backup_start_targets ::
  "env \<Rightarrow> world \<Rightarrow> wt_cursor_backup \<Rightarrow> bool \<Rightarrow> backup_cfg \<Rightarrow>
   ret \<times> world \<times> wt_cursor_backup" where
  "backup_start_targets e w cb is_dup cfg =
    (case backup_uri e w cb cfg is_dup of
       (Some err, w1, cb1, target_list, log_only) \<Rightarrow> backup_start_err e w1 cb1 (Some err) None None
     | (None, w1, cb1, target_list, log_only) \<Rightarrow>
         if is_dup then
           (if \<not> log_only then
              backup_start_err e w1 cb1
                (Some (EINVAL ''duplicate backup cursor must be for logs only.'')) None None
            else (None, w1\<lparr>session_backup_dup := True\<rparr>, cb1\<lparr>curbackup_dup := True\<rparr>))
         else if \<not> target_list then
           (case backup_log_append e cb1 True of
              (Some err, cb2) \<Rightarrow> backup_start_err e w1 cb2 (Some err) None None
            | (None, cb2) \<Rightarrow>
                (case backup_all e w1 cb2 of
                   (Some err, w3, cb3) \<Rightarrow> backup_start_err e w3 cb3 (Some err) None None
                 | (None, w3, cb3) \<Rightarrow> backup_start_files e w3 cb3 log_only))
         else backup_start_files e w1 cb1 log_only)"

text \<open>
  \<^verbatim>\<open>__backup_start\<close>. \<^verbatim>\<open>__wt_inmem_unsupported_op\<close> is not under src/: the environment gives its
  return code.
\<close>

definition backup_start ::
  "env \<Rightarrow> world \<Rightarrow> wt_cursor_backup \<Rightarrow> bool \<Rightarrow> backup_cfg \<Rightarrow>
   ret \<times> world \<times> wt_cursor_backup" where
  "backup_start e w cb is_dup cfg =
    (let cb0 = cb\<lparr>cb_next := 0, cb_list := None, cb_list_next := 0\<rparr> in
     case inmem_unsupported_op e of
       Some err \<Rightarrow> (Some err, w, cb0)
     | None \<Rightarrow>
         if hot_backup_start w \<noteq> 0 \<and> \<not> is_dup then
           (Some (EINVAL ''there is already a backup cursor open''), w, cb0)
         else if session_backup_dup w \<and> is_dup then
           (Some (EINVAL ''there is already a duplicate backup cursor open''), w, cb0)
         else if \<not> is_dup then
           (let w1 = w\<lparr>hot_backup_start := ckpt_most_recent e, hot_backup_list := None\<rparr>;
                cb1 = cb0\<lparr>curbackup_locker := True\<rparr>
            in case wt_fopen e w1 (WT_BACKUP_TMP e) of
                 (Some err, w2, fs) \<Rightarrow> backup_start_err e w2 cb1 (Some err) None None
               | (None, w2, fs) \<Rightarrow> backup_start_targets e w2 (cb1\<lparr>cb_bfs := fs\<rparr>) is_dup cfg)
         else backup_start_targets e w cb0 is_dup cfg)"

text \<open>\<^verbatim>\<open>__backup_free\<close>: the names and the array are freed, and \<^verbatim>\<open>__wt_free\<close> clears the pointer.\<close>

definition backup_free :: "wt_cursor_backup \<Rightarrow> wt_cursor_backup" where
  "backup_free cb = cb\<lparr>cb_list := None\<rparr>"

text \<open>\<^verbatim>\<open>__wt_backup_file_remove\<close>.\<close>

definition wt_backup_file_remove :: "env \<Rightarrow> world \<Rightarrow> ret \<times> world" where
  "wt_backup_file_remove e w =
    (case wt_remove_if_exists e w (WT_BACKUP_TMP e) of (r1, w1) \<Rightarrow>
     case wt_remove_if_exists e w1 (WT_INCREMENTAL_BACKUP e) of (r2, w2) \<Rightarrow>
     case wt_remove_if_exists e w2 (WT_INCREMENTAL_SRC e) of (r3, w3) \<Rightarrow>
     case wt_remove_if_exists e w3 (WT_METADATA_BACKUP e) of (r4, w4) \<Rightarrow>
       (WT_TRET (WT_TRET (WT_TRET (WT_TRET None r1) r2) r3) r4, w4))"

text \<open>
  \<^verbatim>\<open>__backup_stop\<close>. The two \<^verbatim>\<open>WT_ASSERT\<close> lines check the flags in a diagnostic build and
  change nothing.
\<close>

definition backup_stop ::
  "env \<Rightarrow> world \<Rightarrow> wt_cursor_backup \<Rightarrow> ret \<times> world \<times> wt_cursor_backup" where
  "backup_stop e w cb =
    (let w1 = w\<lparr>hot_backup_list := None\<rparr>;
         cb1 = backup_free cb
     in case wt_backup_file_remove e w1 of
          (r, w2) \<Rightarrow>
            (WT_TRET None r, w2\<lparr>hot_backup_start := 0, session_backup_cursor := False\<rparr>, cb1))"

text \<open>
  \<^verbatim>\<open>__curbackup_close\<close>. The cursor returned is the cursor as \<^verbatim>\<open>__wt_cursor_close\<close> finds it
  when it releases it.
\<close>

definition curbackup_close ::
  "env \<Rightarrow> world \<Rightarrow> wt_cursor_backup \<Rightarrow> ret \<times> world \<times> wt_cursor_backup" where
  "curbackup_close e w cb =
    (case (if curbackup_dup cb then
             (None, w\<lparr>session_backup_dup := False\<rparr>, (backup_free cb)\<lparr>curbackup_dup := False\<rparr>)
           else if curbackup_locker cb then
             (case backup_stop e w cb of (r, w1, cb1) \<Rightarrow> (WT_TRET None r, w1, cb1))
           else (None, w, cb)) of
       (r, w1, cb1) \<Rightarrow> (r, w1\<lparr>bkp_cursor_set := False\<rparr>, cb1))"

text \<open>The cursor \<^verbatim>\<open>__wt_calloc_one\<close> hands to \<^verbatim>\<open>__wt_curbackup_open\<close>: every field zero.\<close>

definition calloc_cursor :: wt_cursor_backup where
  "calloc_cursor =
    \<lparr>key_data = None, key_size = 0, curstd_key_ext = False, curstd_key_int = False,
     curstd_value_ext = False, curstd_value_int = False, cb_next = 0, cb_bfs = None,
     cb_maxid = 0, cb_list = None, cb_list_next = 0, curbackup_locker = False,
     curbackup_dup = False\<rparr>"

text \<open>
  \<^verbatim>\<open>__wt_curbackup_open\<close>. \<open>is_dup\<close> is \<^verbatim>\<open>other != NULL\<close>. The result holds the cursor
  \<^verbatim>\<open>*cursorp\<close> (\<open>None\<close> is NULL). \<^verbatim>\<open>__wt_cursor_init\<close> is not under src/: the environment gives
  its return code.
\<close>

definition wt_curbackup_open ::
  "env \<Rightarrow> world \<Rightarrow> bool \<Rightarrow> backup_cfg \<Rightarrow> ret \<times> world \<times> wt_cursor_backup option" where
  "wt_curbackup_open e w is_dup cfg =
    (case calloc_one e of
       Some err \<Rightarrow> (Some err, w, None)
     | None \<Rightarrow>
         (case backup_start e (w\<lparr>bkp_cursor_set := True\<rparr>) calloc_cursor is_dup cfg of
            (ret0, w1, cb1) \<Rightarrow>
              (let ret1 = (if ret0 = None then cursor_init e else ret0) in
               if ret1 = None then (None, w1, Some cb1)
               else
                 (case curbackup_close e w1 cb1 of
                    (r, w2, cb2) \<Rightarrow> (WT_TRET ret1 r, w2, None)))))"

subsection \<open>The invariant of the list under construction\<close>

text \<open>
  While \<^verbatim>\<open>__backup_start\<close> builds the list, the array (when it is there) has its NULL cell
  and \<^verbatim>\<open>list_next\<close> counts the names before it.
\<close>

definition list_inv :: "wt_cursor_backup \<Rightarrow> bool" where
  "list_inv cb = (terminated cb \<and> cb_list_next cb = length (file_list cb))"

subsection \<open>What a step leaves as it is\<close>

text \<open>
  \<open>cb_frame cb cb1\<close>: the cursors differ at most in the list, its length and \<^verbatim>\<open>maxid\<close>.
  \<open>files_frame w fs w1\<close>: the worlds differ at most in the text of the file the stream
  \<open>fs\<close> is open on. \<open>start_kept\<close>: what \<^verbatim>\<open>__backup_start\<close> keeps once the checkpoint is pinned;
  the list is published exactly when it returns 0.
\<close>

definition cb_frame :: "wt_cursor_backup \<Rightarrow> wt_cursor_backup \<Rightarrow> bool" where
  "cb_frame cb cb1 =
    (cb1 = cb\<lparr>cb_list := cb_list cb1, cb_list_next := cb_list_next cb1, cb_maxid := cb_maxid cb1\<rparr>)"

definition files_frame :: "world \<Rightarrow> string option \<Rightarrow> world \<Rightarrow> bool" where
  "files_frame w fs w1 =
    (w1 = w\<lparr>files := files w1\<rparr> \<and> (\<forall>f. Some f \<noteq> fs \<longrightarrow> files w1 f = files w f))"

definition start_kept :: "world \<Rightarrow> wt_cursor_backup \<Rightarrow> ret \<Rightarrow> world \<Rightarrow> wt_cursor_backup \<Rightarrow> bool" where
  "start_kept w cb r w1 cb1 =
    (curbackup_locker cb1 = curbackup_locker cb \<and> curbackup_dup cb1 = curbackup_dup cb \<and>
     cb_next cb1 = cb_next cb \<and> cb_bfs cb1 = None \<and>
     session_backup_dup w1 = session_backup_dup w \<and>
     hot_backup_start w1 = hot_backup_start w \<and>
     bkp_cursor_set w1 = bkp_cursor_set w \<and>
     (r = None \<longrightarrow> hot_backup_list w1 = cb_list cb1 \<and> session_backup_cursor w1) \<and>
     (r \<noteq> None \<longrightarrow> hot_backup_list w1 = hot_backup_list w))"

subsection \<open>The sequence of appends\<close>

text \<open>
  The names a start of the backup hands to \<^verbatim>\<open>__backup_list_append\<close>, in the order of the calls,
  in a run in which no call fails; written as functions of the environment, for the theorems
  below to compare the list the code builds with. \<open>on_disk_name\<close> is the name an append
  stores: the \<open>file:\<close> prefix of a catalog name is stripped. \<open>copied\<close> holds for the catalog
  names the walk appends: those with the \<open>file:\<close> prefix, apart from the lookaside table and
  the system entries. \<open>log_appends\<close> are the log segments, \<open>target_appends\<close> the appends
  for a target list, \<open>standard_appends\<close> the names \<^verbatim>\<open>__backup_start\<close> appends last, and
  \<open>expected_list\<close> the whole sequence for one call of \<^verbatim>\<open>__wt_curbackup_open\<close>.
\<close>

definition on_disk_name :: "string \<Rightarrow> string" where
  "on_disk_name uri = (if WT_PREFIX_MATCH uri ''file:'' then drop (length ''file:'') uri else uri)"

definition copied :: "env \<Rightarrow> string \<Rightarrow> bool" where
  "copied e name =
    (name \<noteq> WT_LAS_URI e \<and> \<not> WT_PREFIX_MATCH name (WT_SYSTEM_PREFIX e) \<and>
     WT_PREFIX_MATCH name ''file:'')"

definition walk_appends :: "env \<Rightarrow> string list \<Rightarrow> string list" where
  "walk_appends e ns = map on_disk_name (filter (copied e) ns)"

definition log_appends :: "env \<Rightarrow> bool \<Rightarrow> string list" where
  "log_appends e active =
    (if conn_log e then
       (case log_get_backup_files e active of
          Inl err \<Rightarrow> []
        | Inr (logfiles, maxid) \<Rightarrow> map on_disk_name logfiles)
     else [])"

definition target_appends :: "env \<Rightarrow> (string \<times> string) list \<Rightarrow> string list" where
  "target_appends e items =
    concat (map (\<lambda>(k, v).
      if WT_PREFIX_MATCH k ''log:'' then log_appends e False
      else (case schema_worker_names e k of Inl err \<Rightarrow> [] | Inr ns \<Rightarrow> walk_appends e ns)) items)"

text \<open>The target list is for logs only: one target, and it names the log.\<close>

definition log_only_targets :: "(string \<times> string) list \<Rightarrow> bool" where
  "log_only_targets items =
    (case items of [(k, v)] \<Rightarrow> WT_PREFIX_MATCH k ''log:'' | _ \<Rightarrow> False)"

definition standard_appends :: "env \<Rightarrow> world \<Rightarrow> bool \<Rightarrow> string list" where
  "standard_appends e w log_only =
    (if log_only then [on_disk_name (WT_INCREMENTAL_BACKUP e)]
     else
       [on_disk_name (WT_METADATA_BACKUP e)] @
       (if files w (WT_BASECONFIG e) \<noteq> None then [on_disk_name (WT_BASECONFIG e)] else []) @
       (if files w (WT_USERCONFIG e) \<noteq> None then [on_disk_name (WT_USERCONFIG e)] else []) @
       [on_disk_name (WT_WIREDTIGER e)])"

definition expected_list :: "env \<Rightarrow> world \<Rightarrow> bool \<Rightarrow> backup_cfg \<Rightarrow> string list" where
  "expected_list e w is_dup cfg =
    (if is_dup then target_appends e (target_items cfg)
     else
       (if target_items cfg = []
        then log_appends e True @ walk_appends e (map fst (metadata e))
        else target_appends e (target_items cfg)) @
       standard_appends e w (log_only_targets (target_items cfg)))"

subsection \<open>A database to run the model on\<close>

text \<open>
  A connection with logging on and one log segment, a catalog with the table \<open>T\<close> stored
  in the file \<open>T.wt\<close>, the lookaside table and a system entry, the names WiredTiger gives
  its files, and collaborators that do not fail. \<open>idle_world\<close> has no backup open and holds
  the file of the table; \<open>no_targets\<close> is the configuration of a full backup.
\<close>

definition example_env :: env where
  "example_env =
    \<lparr>WT_BACKUP_TMP = ''WiredTiger.backup.tmp'',
     WT_INCREMENTAL_BACKUP = ''WiredTiger.ibackup'',
     WT_INCREMENTAL_SRC = ''WiredTiger.isrc'',
     WT_METADATA_BACKUP = ''WiredTiger.backup'',
     WT_BASECONFIG = ''WiredTiger.basecfg'',
     WT_USERCONFIG = ''WiredTiger.config'',
     WT_WIREDTIGER = ''WiredTiger'',
     WT_LAS_URI = ''file:WiredTigerLAS.wt'',
     WT_SYSTEM_PREFIX = ''system:'',
     conn_log = True,
     conn_log_archive = False,
     ckpt_most_recent = 7,
     metadata = [(''colgroup:T'', ''c''), (''file:T.wt'', ''d''), (''file:WiredTigerLAS.wt'', ''l''),
                 (''system:checkpoint'', ''s''), (''table:T'', ''t'')],
     calloc_one = None,
     inmem_unsupported_op = None,
     cursor_init = None,
     fopen_ret = (\<lambda>f. None),
     fclose_ret = (\<lambda>f. None),
     fprintf_ret = (\<lambda>t. None),
     sync_and_rename_ret = (\<lambda>f. None),
     fs_exist_ret = (\<lambda>f. None),
     remove_ret = (\<lambda>f. None),
     log_get_backup_files = (\<lambda>active. Inr ([''WiredTigerLog.1''], 1)),
     fs_directory_list_free = None,
     realloc_ret = (\<lambda>n. None),
     strdup_ret = (\<lambda>s. None),
     scr_alloc = None,
     buf_fmt_ret = (\<lambda>s. None),
     schema_worker_names = (\<lambda>uri. Inr [uri])\<rparr>"

definition idle_world :: world where
  "idle_world =
    \<lparr>hot_backup_start = 0, hot_backup_list = None, session_backup_cursor = False,
     session_backup_dup = False, bkp_cursor_set = False,
     files = [''T.wt'' \<mapsto> ''data'']\<rparr>"

definition no_targets :: backup_cfg where
  "no_targets = \<lparr>target_gets = None, target_items = [], target_end = WT_NOTFOUND\<rparr>"

text \<open>
  \<open>busy_world\<close> is the world a full backup of \<open>idle_world\<close> leaves open (lemma
  \<open>open_idle_full\<close> below): the checkpoint is pinned, the list is published and the metadata
  snapshot is in place. \<open>log_target\<close> asks for the log only, \<open>two_log_targets\<close> names the log
  twice, \<open>las_target\<close> names the lookaside table and \<open>table_target\<close> the table \<open>T\<close>. In
  \<open>failing_env\<close> the allocator fails when the last standard name is copied; in \<open>stuck_env\<close>
  the removal of the temporary snapshot file fails as well.
\<close>

definition busy_world :: world where
  "busy_world =
    \<lparr>hot_backup_start = 7,
     hot_backup_list = Some [Some ''WiredTigerLog.1'', Some ''T.wt'', Some ''WiredTiger.backup'',
                             Some ''WiredTiger'', None],
     session_backup_cursor = True, session_backup_dup = False, bkp_cursor_set = True,
     files = [''T.wt'' \<mapsto> ''data'',
              ''WiredTiger.backup'' \<mapsto>
                ''colgroup:T'' @ [CHR 0x0A] @ ''c'' @ [CHR 0x0A] @
                ''file:T.wt'' @ [CHR 0x0A] @ ''d'' @ [CHR 0x0A] @
                ''system:checkpoint'' @ [CHR 0x0A] @ ''s'' @ [CHR 0x0A] @
                ''table:T'' @ [CHR 0x0A] @ ''t'' @ [CHR 0x0A]]\<rparr>"

definition log_target :: backup_cfg where
  "log_target = \<lparr>target_gets = None, target_items = [(''log:'', [])], target_end = WT_NOTFOUND\<rparr>"

definition two_log_targets :: backup_cfg where
  "two_log_targets =
    \<lparr>target_gets = None, target_items = [(''log:'', []), (''log:'', [])],
     target_end = WT_NOTFOUND\<rparr>"

definition las_target :: backup_cfg where
  "las_target =
    \<lparr>target_gets = None, target_items = [(''file:WiredTigerLAS.wt'', [])],
     target_end = WT_NOTFOUND\<rparr>"

definition table_target :: backup_cfg where
  "table_target =
    \<lparr>target_gets = None, target_items = [(''table:T'', [])], target_end = WT_NOTFOUND\<rparr>"

definition failing_env :: env where
  "failing_env =
    example_env\<lparr>strdup_ret := (\<lambda>s. if s = ''WiredTiger'' then Some (ERR 12) else None)\<rparr>"

definition stuck_env :: env where
  "stuck_env =
    failing_env\<lparr>remove_ret :=
      (\<lambda>f. if f = ''WiredTiger.backup.tmp'' then Some (ERR 5) else None)\<rparr>"

section \<open>Properties of the cursor's iteration\<close>

lemma cells_before_sentinel:
  "i < length (takeWhile (\<lambda>c. c \<noteq> None) cells) \<Longrightarrow>
   i < length cells \<and> cells ! i = Some (map the (takeWhile (\<lambda>c. c \<noteq> None) cells) ! i)"
proof -
  assume a: "i < length (takeWhile (\<lambda>c. c \<noteq> None) cells)"
  have le: "length (takeWhile (\<lambda>c. c \<noteq> None) cells) \<le> length cells"
    by (rule length_takeWhile_le)
  have eq: "takeWhile (\<lambda>c. c \<noteq> None) cells ! i = cells ! i"
    using a by (rule takeWhile_nth)
  have "takeWhile (\<lambda>c. c \<noteq> None) cells ! i \<in> set (takeWhile (\<lambda>c. c \<noteq> None) cells)"
    using a by simp
  then have "takeWhile (\<lambda>c. c \<noteq> None) cells ! i \<noteq> None"
    by (rule set_takeWhileD [THEN conjunct2])
  with eq a le show ?thesis by auto
qed

lemma cells_at_sentinel:
  "None \<in> set cells \<Longrightarrow>
   length (takeWhile (\<lambda>c. c \<noteq> None) cells) < length cells \<and>
   cells ! length (takeWhile (\<lambda>c. c \<noteq> None) cells) = None"
proof -
  assume a: "None \<in> set cells"
  have "takeWhile (\<lambda>c. c \<noteq> None) cells \<noteq> cells"
    using a by (auto simp: takeWhile_eq_all_conv)
  then have lt: "length (takeWhile (\<lambda>c. c \<noteq> None) cells) < length cells"
    using length_takeWhile_le [of "\<lambda>c. c \<noteq> None" cells]
    by (metis le_neq_implies_less takeWhile_eq_take take_all_iff order_refl)
  from nth_length_takeWhile [OF lt] lt show ?thesis by simp
qed

lemma next_in_list:
  assumes "terminated cb" "cb_next cb < length (file_list cb)"
  shows "curbackup_next cb =
    (None, cb\<lparr>key_data := Some (file_list cb ! cb_next cb),
              key_size := length (file_list cb ! cb_next cb) + 1,
              cb_next := cb_next cb + 1, curstd_key_int := True\<rparr>)"
proof (cases "cb_list cb")
  case None
  with assms show ?thesis by (simp add: file_list_def)
next
  case (Some cells)
  with assms have "cb_next cb < length (takeWhile (\<lambda>c. c \<noteq> None) cells)"
    by (simp add: file_list_def)
  from cells_before_sentinel [OF this] Some show ?thesis
    by (simp add: curbackup_next_def file_list_def)
qed

lemma next_at_end:
  assumes "terminated cb" "cb_next cb = length (file_list cb)"
  shows "curbackup_next cb =
    (Some WT_NOTFOUND, cb\<lparr>curstd_key_ext := False, curstd_key_int := False\<rparr>)"
proof (cases "cb_list cb")
  case None
  then show ?thesis by (simp add: curbackup_next_def)
next
  case (Some cells)
  with assms have "None \<in> set cells" by (simp add: terminated_def)
  from cells_at_sentinel [OF this] Some assms(2) show ?thesis
    by (simp add: curbackup_next_def file_list_def)
qed

lemma next_keeps_list: "cb_list (snd (curbackup_next cb)) = cb_list cb"
  by (simp add: curbackup_next_def split: option.splits)

lemma next_n_run:
  "terminated cb \<Longrightarrow> cb_next cb + n \<le> length (file_list cb) \<Longrightarrow>
   fst (next_n n cb) = map (\<lambda>s. (None, Some s)) (take n (drop (cb_next cb) (file_list cb))) \<and>
   cb_next (snd (next_n n cb)) = cb_next cb + n \<and>
   cb_list (snd (next_n n cb)) = cb_list cb"
proof (induction n arbitrary: cb)
  case 0
  then show ?case by simp
next
  case (Suc n)
  let ?cb1 = "cb\<lparr>key_data := Some (file_list cb ! cb_next cb),
              key_size := length (file_list cb ! cb_next cb) + 1,
              cb_next := cb_next cb + 1, curstd_key_int := True\<rparr>"
  from Suc.prems have lt: "cb_next cb < length (file_list cb)" by simp
  have step: "curbackup_next cb = (None, ?cb1)"
    using Suc.prems(1) lt by (rule next_in_list)
  have fl: "file_list ?cb1 = file_list cb" by (simp add: file_list_def)
  have t1: "terminated ?cb1" using Suc.prems(1) by (simp add: terminated_def)
  have b1: "cb_next ?cb1 + n \<le> length (file_list ?cb1)" using Suc.prems(2) fl by simp
  note ih = Suc.IH [OF t1 b1]
  have dr: "take (Suc n) (drop (cb_next cb) (file_list cb)) =
        file_list cb ! cb_next cb # take n (drop (Suc (cb_next cb)) (file_list cb))"
    using lt by (simp add: Cons_nth_drop_Suc [symmetric])
  show ?case using ih step fl dr
    by (simp add: case_prod_beta)
qed

lemma next_n_null:
  "cb_list cb = None \<Longrightarrow>
   map fst (fst (next_n n cb)) = replicate n (Some WT_NOTFOUND) \<and>
   cb_list (snd (next_n n cb)) = None \<and> cb_next (snd (next_n n cb)) = cb_next cb"
proof (induction n arbitrary: cb)
  case 0
  then show ?case by simp
next
  case (Suc n)
  let ?cb1 = "cb\<lparr>curstd_key_ext := False, curstd_key_int := False\<rparr>"
  have step: "curbackup_next cb = (Some WT_NOTFOUND, ?cb1)"
    using Suc.prems by (simp add: curbackup_next_def)
  have "cb_list ?cb1 = None" using Suc.prems by simp
  from Suc.IH [OF this] step show ?case by (simp add: case_prod_beta)
qed

text \<open>
  Claim C2. For a cursor whose array is NULL-terminated, with file list \<open>L\<close> and position
  \<open>i\<close>: when \<open>i < length L\<close>, \<^verbatim>\<open>next\<close> returns 0, the key is \<open>L ! i\<close> (its size the length of
  the name and its NUL byte) and the position is \<open>i + 1\<close>; when \<open>i = length L\<close>, \<^verbatim>\<open>next\<close>
  returns \<open>WT_NOTFOUND\<close>, clears the key-set flags and leaves the position where it is.
\<close>

theorem C2_next:
  "terminated cb \<Longrightarrow>
   (cb_next cb < length (file_list cb) \<longrightarrow>
      curbackup_next cb =
        (None, cb\<lparr>key_data := Some (file_list cb ! cb_next cb),
                  key_size := length (file_list cb ! cb_next cb) + 1,
                  cb_next := cb_next cb + 1, curstd_key_int := True\<rparr>)) \<and>
   (cb_next cb = length (file_list cb) \<longrightarrow>
      curbackup_next cb =
        (Some WT_NOTFOUND, cb\<lparr>curstd_key_ext := False, curstd_key_int := False\<rparr>) \<and>
      cb_next (snd (curbackup_next cb)) = cb_next cb)"
  using next_in_list [of cb] next_at_end [of cb] by simp

theorem C2_next_witness:
  "terminated (calloc_cursor\<lparr>cb_list := Some [Some ''WiredTiger.backup'', Some ''WiredTiger'', None],
                            cb_next := 1\<rparr>) \<and>
   curbackup_next (calloc_cursor\<lparr>cb_list := Some [Some ''WiredTiger.backup'', Some ''WiredTiger'', None],
                                cb_next := 1\<rparr>) =
     (None, calloc_cursor\<lparr>cb_list := Some [Some ''WiredTiger.backup'', Some ''WiredTiger'', None],
                          cb_next := 2, key_data := Some ''WiredTiger'', key_size := 11,
                          curstd_key_int := True\<rparr>) \<and>
   terminated (calloc_cursor\<lparr>cb_list := Some [Some ''WiredTiger.backup'', Some ''WiredTiger'', None],
                            cb_next := 2, curstd_key_int := True\<rparr>) \<and>
   curbackup_next (calloc_cursor\<lparr>cb_list := Some [Some ''WiredTiger.backup'', Some ''WiredTiger'', None],
                                cb_next := 2, curstd_key_int := True\<rparr>) =
     (Some WT_NOTFOUND,
      calloc_cursor\<lparr>cb_list := Some [Some ''WiredTiger.backup'', Some ''WiredTiger'', None],
                    cb_next := 2\<rparr>)"
  using C2_next [of "calloc_cursor\<lparr>cb_list := Some [Some ''WiredTiger.backup'', Some ''WiredTiger'', None],
                            cb_next := 1\<rparr>"]
        C2_next [of "calloc_cursor\<lparr>cb_list := Some [Some ''WiredTiger.backup'', Some ''WiredTiger'', None],
                            cb_next := 2, curstd_key_int := True\<rparr>"]
  by (simp add: terminated_def file_list_def calloc_cursor_def)

text \<open>
  Claim C6. For a cursor at position 0 with file list \<open>L\<close>: \<open>length L\<close> calls of \<^verbatim>\<open>next\<close> return
  the entries of \<open>L\<close>, each once and in order, and the call after them fails with
  \<open>WT_NOTFOUND\<close>; \<^verbatim>\<open>reset\<close> then returns 0, puts the position back to 0 and clears the key
  and value flags, and \<open>length L\<close> more calls of \<^verbatim>\<open>next\<close> return the same sequence, again
  followed by \<open>WT_NOTFOUND\<close>.
\<close>

theorem C6_iterate_reset_iterate:
  assumes "terminated cb" and "cb_next cb = 0"
  shows
    "fst (next_n (length (file_list cb)) cb) = map (\<lambda>s. (None, Some s)) (file_list cb) \<and>
     fst (curbackup_next (snd (next_n (length (file_list cb)) cb))) = Some WT_NOTFOUND \<and>
     (let cb1 = snd (curbackup_next (snd (next_n (length (file_list cb)) cb)));
          cb2 = snd (curbackup_reset cb1)
      in fst (curbackup_reset cb1) = None \<and> cb_next cb2 = 0 \<and>
         \<not> curstd_key_ext cb2 \<and> \<not> curstd_key_int cb2 \<and>
         \<not> curstd_value_ext cb2 \<and> \<not> curstd_value_int cb2 \<and>
         fst (next_n (length (file_list cb)) cb2) = fst (next_n (length (file_list cb)) cb) \<and>
         fst (curbackup_next (snd (next_n (length (file_list cb)) cb2))) = Some WT_NOTFOUND)"
proof -
  let ?L = "file_list cb"
  let ?n = "length ?L"
  let ?cbA = "snd (next_n ?n cb)"
  have b: "cb_next cb + ?n \<le> length ?L" using assms(2) by simp
  from next_n_run [OF assms(1) b] assms(2)
  have r1: "fst (next_n ?n cb) = map (\<lambda>s. (None, Some s)) ?L"
    and p1: "cb_next ?cbA = ?n" and l1: "cb_list ?cbA = cb_list cb" by simp_all
  have fA: "file_list ?cbA = ?L" using l1 by (simp add: file_list_def)
  have tA: "terminated ?cbA" using l1 assms(1) by (simp add: terminated_def)
  have eA: "curbackup_next ?cbA =
      (Some WT_NOTFOUND, ?cbA\<lparr>curstd_key_ext := False, curstd_key_int := False\<rparr>)"
    using tA p1 fA by (intro next_at_end) simp_all
  let ?cb1 = "snd (curbackup_next ?cbA)"
  let ?cb2 = "snd (curbackup_reset ?cb1)"
  have l2: "cb_list ?cb2 = cb_list cb" using eA l1 by (simp add: curbackup_reset_def)
  have p2: "cb_next ?cb2 = 0" by (simp add: curbackup_reset_def)
  have f2: "file_list ?cb2 = ?L" using l2 by (simp add: file_list_def)
  have t2: "terminated ?cb2" using l2 assms(1) by (simp add: terminated_def)
  have b2: "cb_next ?cb2 + ?n \<le> length (file_list ?cb2)" using p2 f2 by simp
  let ?cbB = "snd (next_n ?n ?cb2)"
  from next_n_run [OF t2 b2] p2 f2
  have r2: "fst (next_n ?n ?cb2) = map (\<lambda>s. (None, Some s)) ?L"
    and p3: "cb_next ?cbB = ?n" and l3: "cb_list ?cbB = cb_list cb"
    using l2 by simp_all
  have fB: "file_list ?cbB = ?L" using l3 by (simp add: file_list_def)
  have tB: "terminated ?cbB" using l3 assms(1) by (simp add: terminated_def)
  have eB: "fst (curbackup_next ?cbB) = Some WT_NOTFOUND"
    using next_at_end [of ?cbB] tB p3 fB by simp
  have fl: "fst (curbackup_reset ?cb1) = None \<and> \<not> curstd_key_ext ?cb2 \<and> \<not> curstd_key_int ?cb2 \<and>
         \<not> curstd_value_ext ?cb2 \<and> \<not> curstd_value_int ?cb2"
    by (simp add: curbackup_reset_def)
  show ?thesis
    unfolding Let_def using r1 eA p2 fl r2 eB by simp
qed

theorem C6_iterate_reset_iterate_witness:
  "terminated (calloc_cursor\<lparr>cb_list := Some [Some ''WiredTiger.backup'', Some ''WiredTiger'', None]\<rparr>) \<and>
   cb_next (calloc_cursor\<lparr>cb_list := Some [Some ''WiredTiger.backup'', Some ''WiredTiger'', None]\<rparr>) = 0 \<and>
   fst (next_n 2 (calloc_cursor\<lparr>cb_list := Some [Some ''WiredTiger.backup'', Some ''WiredTiger'', None]\<rparr>))
     = [(None, Some ''WiredTiger.backup''), (None, Some ''WiredTiger'')] \<and>
   fst (curbackup_next (snd (next_n 2
      (calloc_cursor\<lparr>cb_list := Some [Some ''WiredTiger.backup'', Some ''WiredTiger'', None]\<rparr>))))
     = Some WT_NOTFOUND"
proof -
  let ?c = "calloc_cursor\<lparr>cb_list := Some [Some ''WiredTiger.backup'', Some ''WiredTiger'', None]\<rparr>"
  have h1: "terminated ?c" by (simp add: terminated_def)
  have h2: "cb_next ?c = 0" by (simp add: calloc_cursor_def)
  have fl: "file_list ?c = [''WiredTiger.backup'', ''WiredTiger'']" by (simp add: file_list_def)
  from C6_iterate_reset_iterate [OF h1 h2]
  have "fst (next_n (length (file_list ?c)) ?c) = map (\<lambda>s. (None, Some s)) (file_list ?c)"
    and "fst (curbackup_next (snd (next_n (length (file_list ?c)) ?c))) = Some WT_NOTFOUND"
    by blast+
  then have "fst (next_n 2 ?c) = [(None, Some ''WiredTiger.backup''), (None, Some ''WiredTiger'')]"
    and "fst (curbackup_next (snd (next_n 2 ?c))) = Some WT_NOTFOUND"
    unfolding fl by (simp_all add: numeral_2_eq_2)
  with h1 h2 show ?thesis by blast
qed

text \<open>
  Claim C10. For a cursor whose list was never allocated (\<^verbatim>\<open>cb->list == NULL\<close>): the first
  call of \<^verbatim>\<open>next\<close> and every call after it returns \<open>WT_NOTFOUND\<close>; no call reads a cell (none
  is the undefined read \<open>C_UNDEFINED\<close>), the list stays absent and the position unchanged.
\<close>

theorem C10_next_on_absent_list:
  "cb_list cb = None \<Longrightarrow>
   curbackup_next cb =
     (Some WT_NOTFOUND, cb\<lparr>curstd_key_ext := False, curstd_key_int := False\<rparr>) \<and>
   map fst (fst (next_n n cb)) = replicate n (Some WT_NOTFOUND) \<and>
   cb_list (snd (next_n n cb)) = None \<and>
   cb_next (snd (next_n n cb)) = cb_next cb"
  using next_n_null [of cb n] by (simp add: curbackup_next_def)

theorem C10_next_on_absent_list_witness:
  "cb_list calloc_cursor = None \<and>
   map fst (fst (next_n 3 calloc_cursor)) =
     [Some WT_NOTFOUND, Some WT_NOTFOUND, Some WT_NOTFOUND]"
  using C10_next_on_absent_list [of calloc_cursor 3]
  by (simp add: calloc_cursor_def numeral_3_eq_3)

section \<open>Properties of the list's construction\<close>

lemma cells_shape:
  assumes "None \<in> set (cells :: string option list)"
  shows "\<exists>junk. cells = map Some (map the (takeWhile (\<lambda>c. c \<noteq> None) cells)) @ None # junk"
proof -
  let ?P = "\<lambda>c::string option. c \<noteq> None"
  have a: "cells = takeWhile ?P cells @ dropWhile ?P cells" by simp
  have ne: "dropWhile ?P cells \<noteq> []" using assms by (auto simp: dropWhile_eq_Nil_conv)
  then obtain d ds where d: "dropWhile ?P cells = d # ds" by (cases "dropWhile ?P cells") auto
  have "\<not> ?P (hd (dropWhile ?P cells))" using ne by (rule hd_dropWhile)
  with d have dN: "d = None" by simp
  have "map Some (map the (takeWhile ?P cells)) = takeWhile ?P cells"
    by (induction cells) auto
  with a d dN show ?thesis by metis
qed

lemma takeWhile_names:
  "takeWhile (\<lambda>c. c \<noteq> None) (map Some ns @ None # rest) = map Some ns"
  by (induction ns) auto

lemma file_list_cells:
  "cb_list cb = Some (map Some ns @ None # rest) \<Longrightarrow> file_list cb = ns"
  by (simp add: file_list_def takeWhile_names comp_def del: not_None_eq)

lemma append_cells:
  assumes "2 \<le> length (junk :: string option list)"
  shows "((map Some (ns :: string list) @ junk)[length ns := None, length ns + 1 := None])
            [length ns := Some name]
         = map Some (ns @ [name]) @ None # drop 2 junk"
proof -
  from assms obtain a b r where j: "junk = a # b # r"
    by (cases junk; cases "tl junk") auto
  show ?thesis unfolding j by (simp add: list_update_append)
qed

lemma backup_list_append_ok:
  assumes inv: "list_inv cb" and ok: "backup_list_append e cb uri = (None, cb1)"
  shows "list_inv cb1 \<and>
         file_list cb1 =
           file_list cb @ [if WT_PREFIX_MATCH uri ''file:'' then drop (length ''file:'') uri else uri] \<and>
         cb1 = cb\<lparr>cb_list := cb_list cb1, cb_list_next := cb_list_next cb1\<rparr>"
proof -
  let ?name = "if WT_PREFIX_MATCH uri ''file:'' then drop (length ''file:'') uri else uri"
  let ?ns = "file_list cb"
  from inv have k: "cb_list_next cb = length ?ns" and t: "terminated cb"
    by (simp_all add: list_inv_def)
  from ok obtain cells where re: "wt_realloc_def e (cb_list_next cb + 2) (cb_list cb) = Inr cells"
    by (auto simp: backup_list_append_def split: sum.splits)
  have "\<exists>junk. 2 \<le> length junk \<and> cells = map Some ?ns @ junk"
  proof (cases "cb_list cb")
    case None
    then have "?ns = []" by (simp add: file_list_def)
    with re None k show ?thesis
      by (auto simp: wt_realloc_def_def split: option.splits intro!: exI [of _ "[None, None]"])
  next
    case (Some old)
    with t have "None \<in> set old" by (simp add: terminated_def)
    from cells_shape [OF this] Some obtain junk where
      old: "old = map Some ?ns @ None # junk" by (auto simp: file_list_def)
    from re Some have c: "cells = old @ replicate (length ?ns + 2 - length old) None"
      by (auto simp: wt_realloc_def_def k split: option.splits)
    have "2 \<le> length (None # junk @ replicate (length ?ns + 2 - length old) None)"
      using old by (cases junk) (simp_all add: Suc_diff_le)
    moreover have "cells = map Some ?ns @ (None # junk @ replicate (length ?ns + 2 - length old) None)"
      using c old by simp
    ultimately show ?thesis by blast
  qed
  then obtain junk where j2: "2 \<le> length junk" and cells: "cells = map Some ?ns @ junk" by blast
  from ok re have cb1: "cb1 = cb\<lparr>cb_list := Some ((cells[cb_list_next cb := None, cb_list_next cb + 1 := None])[cb_list_next cb := Some ?name]),
                           cb_list_next := cb_list_next cb + 1\<rparr>"
    by (auto simp: backup_list_append_def Let_def split: option.splits)
  have l1: "cb_list cb1 = Some (map Some (?ns @ [?name]) @ None # drop 2 junk)"
    using cb1 append_cells [OF j2, of ?ns ?name] by (simp add: cells k)
  have f1: "file_list cb1 = ?ns @ [?name]" using l1 by (rule file_list_cells)
  have "terminated cb1" using l1 by (simp add: terminated_def)
  moreover have "cb_list_next cb1 = length (file_list cb1)" using cb1 f1 k by simp
  ultimately show ?thesis using f1 cb1 by (simp add: list_inv_def)
qed

lemma cb_frame_refl: "cb_frame cb cb"
  by (simp add: cb_frame_def)

lemma cb_frame_trans: "cb_frame a b \<Longrightarrow> cb_frame b c \<Longrightarrow> cb_frame a c"
  unfolding cb_frame_def
  by (metis (no_types, lifting) wt_cursor_backup.surjective wt_cursor_backup.update_convs(9,10,11))

lemma cb_frame_bfs: "cb_frame a b \<Longrightarrow> cb_bfs b = cb_bfs a"
  unfolding cb_frame_def by (metis wt_cursor_backup.select_convs(8) wt_cursor_backup.surjective wt_cursor_backup.update_convs(9,10,11))

lemma files_frame_refl: "files_frame w fs w"
  by (simp add: files_frame_def)

lemma files_frame_trans: "files_frame a fs b \<Longrightarrow> files_frame b fs c \<Longrightarrow> files_frame a fs c"
  unfolding files_frame_def
  by (metis (no_types, lifting) world.surjective world.update_convs(6))

lemma cb_frame_fields:
  "cb_frame a b \<Longrightarrow>
   cb_bfs b = cb_bfs a \<and> cb_next b = cb_next a \<and> curbackup_locker b = curbackup_locker a \<and>
   curbackup_dup b = curbackup_dup a \<and> key_data b = key_data a \<and> key_size b = key_size a \<and>
   curstd_key_ext b = curstd_key_ext a \<and> curstd_key_int b = curstd_key_int a \<and>
   curstd_value_ext b = curstd_value_ext a \<and> curstd_value_int b = curstd_value_int a"
  by (cases a; cases b) (simp add: cb_frame_def)

lemma files_frame_fields:
  "files_frame w fs w1 \<Longrightarrow>
   hot_backup_start w1 = hot_backup_start w \<and> hot_backup_list w1 = hot_backup_list w \<and>
   session_backup_cursor w1 = session_backup_cursor w \<and>
   session_backup_dup w1 = session_backup_dup w \<and> bkp_cursor_set w1 = bkp_cursor_set w"
  by (cases w; cases w1) (simp add: files_frame_def)

lemma files_frame_other: "files_frame w fs w1 \<Longrightarrow> Some f \<noteq> fs \<Longrightarrow> files w1 f = files w f"
  by (simp add: files_frame_def)

lemma backup_list_append_frame:
  "backup_list_append e cb uri = (r, cb1) \<Longrightarrow> cb_frame cb cb1"
  by (auto simp: backup_list_append_def Let_def cb_frame_def split: sum.splits option.splits)

lemma backup_list_append_name:
  assumes "list_inv cb" "backup_list_append e cb uri = (None, cb1)"
  shows "list_inv cb1 \<and> file_list cb1 = file_list cb @ [on_disk_name uri]"
  using backup_list_append_ok [OF assms] by (simp add: on_disk_name_def)

lemma backup_log_append_loop_frame:
  "backup_log_append_loop e cb fs = (r, cb1) \<Longrightarrow> cb_frame cb cb1"
proof (induction fs arbitrary: cb)
  case Nil
  then show ?case by (simp add: cb_frame_refl)
next
  case (Cons f fs)
  obtain r0 cb0 where a: "backup_list_append e cb f = (r0, cb0)" by (cases "backup_list_append e cb f")
  note f0 = backup_list_append_frame [OF a]
  show ?case
  proof (cases r0)
    case None
    with Cons.prems a have "backup_log_append_loop e cb0 fs = (r, cb1)" by simp
    from Cons.IH [OF this] f0 show ?thesis by (rule cb_frame_trans [rotated])
  next
    case (Some err)
    with Cons.prems a f0 show ?thesis by simp
  qed
qed

lemma backup_log_append_loop_ok:
  "list_inv cb \<Longrightarrow> backup_log_append_loop e cb fs = (None, cb1) \<Longrightarrow>
   list_inv cb1 \<and> file_list cb1 = file_list cb @ map on_disk_name fs"
proof (induction fs arbitrary: cb)
  case Nil
  then show ?case by simp
next
  case (Cons f fs)
  obtain r0 cb0 where a: "backup_list_append e cb f = (r0, cb0)" by (cases "backup_list_append e cb f")
  with Cons.prems(2) have r0: "r0 = None" by (cases r0) auto
  from backup_list_append_name [OF Cons.prems(1) a [unfolded r0]]
  have i0: "list_inv cb0" and f0: "file_list cb0 = file_list cb @ [on_disk_name f]" by simp_all
  from Cons.prems(2) a r0 have "backup_log_append_loop e cb0 fs = (None, cb1)" by simp
  from Cons.IH [OF i0 this] f0 show ?case by simp
qed

lemma list_inv_maxid: "list_inv (cb\<lparr>cb_maxid := m\<rparr>) = list_inv cb"
  by (simp add: list_inv_def terminated_def file_list_def)

lemma file_list_maxid: "file_list (cb\<lparr>cb_maxid := m\<rparr>) = file_list cb"
  by (simp add: file_list_def)

lemma backup_log_append_frame:
  "backup_log_append e cb active = (r, cb1) \<Longrightarrow> cb_frame cb cb1"
proof (cases "conn_log e")
  case False
  assume "backup_log_append e cb active = (r, cb1)"
  with False show ?thesis by (simp add: backup_log_append_def cb_frame_refl)
next
  case True
  assume a: "backup_log_append e cb active = (r, cb1)"
  show ?thesis
  proof (cases "log_get_backup_files e active")
    case (Inl err)
    with a True show ?thesis by (simp add: backup_log_append_def cb_frame_refl)
  next
    case (Inr p)
    obtain fs m where p: "p = (fs, m)" by (cases p)
    obtain r0 where l: "backup_log_append_loop e (cb\<lparr>cb_maxid := m\<rparr>) fs = (r0, cb1)"
      using a True Inr p by (auto simp: backup_log_append_def split: prod.splits)
    have "cb_frame cb (cb\<lparr>cb_maxid := m\<rparr>)" by (simp add: cb_frame_def)
    with backup_log_append_loop_frame [OF l] show ?thesis by (rule cb_frame_trans [rotated])
  qed
qed

lemma backup_log_append_ok:
  assumes "list_inv cb" "backup_log_append e cb active = (None, cb1)"
  shows "list_inv cb1 \<and> file_list cb1 = file_list cb @ log_appends e active"
proof (cases "conn_log e")
  case False
  with assms show ?thesis
    by (auto simp: backup_log_append_def log_appends_def WT_TRET_def split: option.splits)
next
  case True
  show ?thesis
  proof (cases "log_get_backup_files e active")
    case (Inl err)
    with assms True show ?thesis by (simp add: backup_log_append_def WT_TRET_def)
  next
    case (Inr p)
    obtain fs m where p: "p = (fs, m)" by (cases p)
    from assms(2) True Inr p
    have l: "backup_log_append_loop e (cb\<lparr>cb_maxid := m\<rparr>) fs = (None, cb1)"
      by (auto simp: backup_log_append_def WT_TRET_def split: prod.splits option.splits)
    have "list_inv (cb\<lparr>cb_maxid := m\<rparr>)" using assms(1) by (simp add: list_inv_maxid)
    from backup_log_append_loop_ok [OF this l] True Inr p show ?thesis
      by (simp add: log_appends_def file_list_maxid)
  qed
qed

lemma wt_fprintf_frame: "wt_fprintf e w fs txt = (r, w1) \<Longrightarrow> files_frame w fs w1"
  by (auto simp: wt_fprintf_def files_frame_def split: option.splits)

lemma backup_list_uri_append_frame:
  assumes "backup_list_uri_append e w cb name = (r, w1, cb1)"
  shows "cb_frame cb cb1 \<and> files_frame w (cb_bfs cb) w1"
proof -
  have "\<And>txt r2 w2. wt_fprintf e w (cb_bfs cb) txt = (r2, w2) \<Longrightarrow> files_frame w (cb_bfs cb) w2"
    by (rule wt_fprintf_frame)
  moreover have "\<And>u r2 cb2. backup_list_append e cb u = (r2, cb2) \<Longrightarrow> cb_frame cb cb2"
    by (rule backup_list_append_frame)
  ultimately show ?thesis using assms
    by (auto simp: backup_list_uri_append_def cb_frame_refl files_frame_refl
             split: if_splits sum.splits prod.splits option.splits)
qed

lemma walk_appends_Nil: "walk_appends e [] = []"
  by (simp add: walk_appends_def)

lemma walk_appends_Cons:
  "walk_appends e (n # ns) = (if copied e n then [on_disk_name n] else []) @ walk_appends e ns"
  by (simp add: walk_appends_def)

lemma backup_list_uri_append_ok:
  assumes "list_inv cb" "backup_list_uri_append e w cb name = (None, w1, cb1)"
  shows "list_inv cb1 \<and>
         file_list cb1 = file_list cb @ (if copied e name then [on_disk_name name] else [])"
proof -
  have "\<And>cb2. backup_list_append e cb name = (None, cb2) \<Longrightarrow>
      list_inv cb2 \<and> file_list cb2 = file_list cb @ [on_disk_name name]"
    using assms(1) by (rule backup_list_append_name)
  then show ?thesis using assms
    by (auto simp: backup_list_uri_append_def copied_def
             split: if_splits sum.splits prod.splits option.splits)
qed

lemma name_func_walk_frame:
  "name_func_walk e w cb ns = (r, w1, cb1) \<Longrightarrow>
   cb_frame cb cb1 \<and> files_frame w (cb_bfs cb) w1"
proof (induction ns arbitrary: w cb)
  case Nil
  then show ?case by (simp add: cb_frame_refl files_frame_refl)
next
  case (Cons n ns)
  obtain r0 w0 cb0 where a: "backup_list_uri_append e w cb n = (r0, w0, cb0)"
    by (cases "backup_list_uri_append e w cb n")
  from backup_list_uri_append_frame [OF a]
  have c0: "cb_frame cb cb0" and f0: "files_frame w (cb_bfs cb) w0" by simp_all
  show ?case
  proof (cases r0)
    case None
    with Cons.prems a have "name_func_walk e w0 cb0 ns = (r, w1, cb1)" by simp
    from Cons.IH [OF this] have "cb_frame cb0 cb1" and "files_frame w0 (cb_bfs cb0) w1" by simp_all
    with c0 f0 cb_frame_fields [OF c0] show ?thesis
      by (auto intro: cb_frame_trans files_frame_trans)
  next
    case (Some err)
    with Cons.prems a c0 f0 show ?thesis by simp
  qed
qed

lemma name_func_walk_ok:
  "list_inv cb \<Longrightarrow> name_func_walk e w cb ns = (None, w1, cb1) \<Longrightarrow>
   list_inv cb1 \<and> file_list cb1 = file_list cb @ walk_appends e ns"
proof (induction ns arbitrary: w cb)
  case Nil
  then show ?case by (simp add: walk_appends_Nil)
next
  case (Cons n ns)
  obtain r0 w0 cb0 where a: "backup_list_uri_append e w cb n = (r0, w0, cb0)"
    by (cases "backup_list_uri_append e w cb n")
  with Cons.prems(2) have r0: "r0 = None" by (cases r0) auto
  from backup_list_uri_append_ok [OF Cons.prems(1) a [unfolded r0]]
  have i0: "list_inv cb0"
    and f0: "file_list cb0 = file_list cb @ (if copied e n then [on_disk_name n] else [])"
    by simp_all
  from Cons.prems(2) a r0 have "name_func_walk e w0 cb0 ns = (None, w1, cb1)" by simp
  from Cons.IH [OF i0 this] f0 show ?case by (simp add: walk_appends_Cons)
qed

lemma schema_worker_frame:
  "schema_worker e w cb uri = (r, w1, cb1) \<Longrightarrow> cb_frame cb cb1 \<and> files_frame w (cb_bfs cb) w1"
  using name_func_walk_frame [of e w cb _ r w1 cb1]
  by (auto simp: schema_worker_def cb_frame_refl files_frame_refl split: sum.splits)

lemma schema_worker_ok:
  "list_inv cb \<Longrightarrow> schema_worker e w cb uri = (None, w1, cb1) \<Longrightarrow>
   list_inv cb1 \<and>
   file_list cb1 = file_list cb @
     (case schema_worker_names e uri of Inl err \<Rightarrow> [] | Inr ns \<Rightarrow> walk_appends e ns)"
  using name_func_walk_ok [of cb e w _ w1 cb1]
  by (auto simp: schema_worker_def split: sum.splits)

lemma backup_all_frame:
  "backup_all e w cb = (r, w1, cb1) \<Longrightarrow> cb_frame cb cb1 \<and> files_frame w (cb_bfs cb) w1"
  unfolding backup_all_def by (rule name_func_walk_frame)

lemma backup_all_ok:
  "list_inv cb \<Longrightarrow> backup_all e w cb = (None, w1, cb1) \<Longrightarrow>
   list_inv cb1 \<and> file_list cb1 = file_list cb @ walk_appends e (map fst (metadata e))"
  unfolding backup_all_def by (rule name_func_walk_ok)

lemma backup_uri_loop_step:
  assumes "backup_uri_loop e d t ((k, v) # items) tgl w cb found lo = (None, res)"
  shows "(WT_PREFIX_MATCH k ''log:'' \<and> (d \<or> \<not> conn_log_archive e) \<and> v = [] \<and>
          (\<exists>cb0. backup_log_append e cb False = (None, cb0) \<and>
             backup_uri_loop e d t items True w cb0 (\<not> tgl \<or> found) (\<not> tgl) = (None, res))) \<or>
         (\<not> WT_PREFIX_MATCH k ''log:'' \<and> v = [] \<and>
          (\<exists>w0 cb0. schema_worker e w cb k = (None, w0, cb0) \<and>
             backup_uri_loop e d t items True w0 cb0 (\<not> tgl \<or> found) False = (None, res)))"
  using assms
  by (cases tgl; cases "WT_PREFIX_MATCH k ''log:''")
     (auto simp: Let_def split: if_splits prod.splits option.splits)

lemma backup_uri_loop_frame:
  "backup_uri_loop e d t items tgl w cb found lo = (r, w1, cb1, f1, lo1) \<Longrightarrow>
   cb_frame cb cb1 \<and> files_frame w (cb_bfs cb) w1"
proof (induction items arbitrary: tgl w cb found lo)
  case Nil
  then show ?case by (simp add: cb_frame_refl files_frame_refl)
next
  case (Cons it items)
  obtain k v where it: "it = (k, v)" by (cases it)
  obtain rl cbl where l: "backup_log_append e cb False = (rl, cbl)"
    by (cases "backup_log_append e cb False")
  obtain rs ws cbs where s: "schema_worker e w cb k = (rs, ws, cbs)"
    by (cases "schema_worker e w cb k")
  note fl = backup_log_append_frame [OF l]
  note fs = schema_worker_frame [OF s]
  have ih: "\<And>tgl w0 cb0 found lo. cb_frame cb cb0 \<Longrightarrow> files_frame w (cb_bfs cb) w0 \<Longrightarrow>
      backup_uri_loop e d t items tgl w0 cb0 found lo = (r, w1, cb1, f1, lo1) \<Longrightarrow>
      cb_frame cb cb1 \<and> files_frame w (cb_bfs cb) w1"
  proof -
    fix tgl w0 cb0 found lo
    assume a: "cb_frame cb cb0" and b: "files_frame w (cb_bfs cb) w0"
      and c: "backup_uri_loop e d t items tgl w0 cb0 found lo = (r, w1, cb1, f1, lo1)"
    from Cons.IH [OF c] have "cb_frame cb0 cb1" and "files_frame w0 (cb_bfs cb0) w1" by simp_all
    with a b cb_frame_fields [OF a] show "cb_frame cb cb1 \<and> files_frame w (cb_bfs cb) w1"
      by (auto intro: cb_frame_trans files_frame_trans)
  qed
  from Cons.prems show ?case
    unfolding it
    using l s fl fs ih [OF fl files_frame_refl] ih [OF conjunct1 [OF fs] conjunct2 [OF fs]]
    by (auto simp: Let_def cb_frame_refl files_frame_refl split: if_splits option.splits)
qed

lemma target_appends_Nil: "target_appends e [] = []"
  by (simp add: target_appends_def)

lemma target_appends_Cons:
  "target_appends e ((k, v) # items) =
     (if WT_PREFIX_MATCH k ''log:'' then log_appends e False
      else (case schema_worker_names e k of Inl err \<Rightarrow> [] | Inr ns \<Rightarrow> walk_appends e ns)) @
     target_appends e items"
  by (simp add: target_appends_def)

lemma backup_uri_loop_ok:
  "list_inv cb \<Longrightarrow>
   backup_uri_loop e d t items tgl w cb found lo = (None, w1, cb1, f1, lo1) \<Longrightarrow>
   list_inv cb1 \<and> file_list cb1 = file_list cb @ target_appends e items \<and>
   f1 = (if items = [] then found else (\<not> tgl \<or> found)) \<and>
   lo1 = (case items of [] \<Rightarrow> lo | [(k, v)] \<Rightarrow> WT_PREFIX_MATCH k ''log:'' \<and> \<not> tgl | _ \<Rightarrow> False) \<and>
   (\<forall>(k, v) \<in> set items. v = [])"
proof (induction items arbitrary: tgl w cb found lo)
  case Nil
  then show ?case by (simp add: target_appends_Nil split: if_splits)
next
  case (Cons it items)
  obtain k v where it: "it = (k, v)" by (cases it)
  note st = backup_uri_loop_step [OF Cons.prems(2) [unfolded it]]
  show ?case
  proof (cases "WT_PREFIX_MATCH k ''log:''")
    case True
    with st obtain cb0 where v: "v = []"
      and l: "backup_log_append e cb False = (None, cb0)"
      and r: "backup_uri_loop e d t items True w cb0 (\<not> tgl \<or> found) (\<not> tgl) = (None, w1, cb1, f1, lo1)"
      by blast
    from backup_log_append_ok [OF Cons.prems(1) l]
    have i0: "list_inv cb0" and f0: "file_list cb0 = file_list cb @ log_appends e False"
      by simp_all
    from Cons.IH [OF i0 r] f0 True v show ?thesis
      unfolding it by (cases items) (auto simp: target_appends_Cons split: list.splits)
  next
    case False
    with st obtain w0 cb0 where v: "v = []"
      and s: "schema_worker e w cb k = (None, w0, cb0)"
      and r: "backup_uri_loop e d t items True w0 cb0 (\<not> tgl \<or> found) False = (None, w1, cb1, f1, lo1)"
      by blast
    from schema_worker_ok [OF Cons.prems(1) s]
    have i0: "list_inv cb0"
      and f0: "file_list cb0 = file_list cb @
        (case schema_worker_names e k of Inl err \<Rightarrow> [] | Inr ns \<Rightarrow> walk_appends e ns)"
      by simp_all
    from Cons.IH [OF i0 r] f0 False v show ?thesis
      unfolding it by (cases items) (auto simp: target_appends_Cons split: list.splits)
  qed
qed

lemma backup_uri_frame:
  "backup_uri e w cb cfg d = (r, w1, cb1, f1, lo1) \<Longrightarrow>
   cb_frame cb cb1 \<and> files_frame w (cb_bfs cb) w1"
  using backup_uri_loop_frame [of e d "target_end cfg" "target_items cfg" False w cb False False]
  by (auto simp: backup_uri_def cb_frame_refl files_frame_refl split: option.splits)

lemma backup_uri_ok:
  assumes "list_inv cb" "backup_uri e w cb cfg d = (None, w1, cb1, f1, lo1)"
  shows "list_inv cb1 \<and> file_list cb1 = file_list cb @ target_appends e (target_items cfg) \<and>
         f1 = (target_items cfg \<noteq> []) \<and> lo1 = log_only_targets (target_items cfg)"
proof -
  from assms(2) have
    "backup_uri_loop e d (target_end cfg) (target_items cfg) False w cb False False =
       (None, w1, cb1, f1, lo1)"
    by (auto simp: backup_uri_def split: option.splits)
  from backup_uri_loop_ok [OF assms(1) this] show ?thesis
    by (auto simp: log_only_targets_def split: list.splits)
qed

lemma backup_start_err_frame:
  assumes "backup_start_err e w cb r0 srcfs dest = (r, w1, cb1)"
  shows "cb1 = cb\<lparr>cb_bfs := None\<rparr> \<and>
         session_backup_dup w1 = session_backup_dup w \<and>
         hot_backup_start w1 = hot_backup_start w \<and>
         bkp_cursor_set w1 = bkp_cursor_set w \<and>
         (\<forall>err. r0 = Some err \<longrightarrow> r = Some err \<and> w1 = w) \<and>
         (r = None \<longrightarrow> hot_backup_list w1 = cb_list cb \<and> session_backup_cursor w1)"
proof -
  have a: "cb_bfs cb = None \<Longrightarrow> cb\<lparr>cb_bfs := None\<rparr> = cb" by simp
  show ?thesis using assms
    by (auto simp: backup_start_err_def Let_def WT_TRET_def wt_sync_and_rename_def a
             split: option.splits if_splits prod.splits)
qed

lemma err_kept:
  assumes "backup_start_err e w cb0 r0 srcfs dest = (r, w1, cb1)"
    and "cb_frame cb cb0" and "w = w0\<lparr>files := files w\<rparr>"
  shows "start_kept w0 cb r w1 cb1"
proof -
  note f = backup_start_err_frame [OF assms(1)]
  note c = cb_frame_fields [OF assms(2)]
  have w: "session_backup_dup w = session_backup_dup w0" "hot_backup_start w = hot_backup_start w0"
     "bkp_cursor_set w = bkp_cursor_set w0" "hot_backup_list w = hot_backup_list w0"
    by (subst assms(3), simp)+
  have "r \<noteq> None \<Longrightarrow> hot_backup_list w1 = hot_backup_list w"
    using assms(1)
    by (auto simp: backup_start_err_def Let_def WT_TRET_def wt_sync_and_rename_def
             split: option.splits if_splits prod.splits)
  with f c w show ?thesis by (auto simp: start_kept_def)
qed

lemma wt_fopen_files: "wt_fopen e w f = (r, w1, h) \<Longrightarrow> w1 = w\<lparr>files := files w1\<rparr>"
  by (auto simp: wt_fopen_def split: option.splits)

lemma backup_start_files_kept:
  assumes "backup_start_files e w cb lo = (r, w1, cb1)"
  shows "start_kept w cb r w1 cb1"
proof (cases lo)
  case True
  obtain r0 w0 h where o: "wt_fopen e w (WT_INCREMENTAL_SRC e) = (r0, w0, h)"
    by (cases "wt_fopen e w (WT_INCREMENTAL_SRC e)")
  obtain r2 cb2 where a: "backup_list_append e cb (WT_INCREMENTAL_BACKUP e) = (r2, cb2)"
    by (cases "backup_list_append e cb (WT_INCREMENTAL_BACKUP e)")
  have w0: "w0 = w\<lparr>files := files w0\<rparr>" using o by (rule wt_fopen_files)
  from assms True o a have
    "backup_start_err e w0 cb r0 h (Some (WT_INCREMENTAL_BACKUP e)) = (r, w1, cb1) \<or>
     backup_start_err e w0 cb2 r2 h (Some (WT_INCREMENTAL_BACKUP e)) = (r, w1, cb1)"
    by (auto simp: backup_start_files_def split: option.splits)
  then show ?thesis
    using err_kept [OF _ cb_frame_refl w0] err_kept [OF _ backup_list_append_frame [OF a] w0]
    by blast
next
  case False
  have w: "w = w\<lparr>files := files w\<rparr>" by simp
  have app: "\<And>c u r2 c2. cb_frame cb c \<Longrightarrow> backup_list_append e c u = (r2, c2) \<Longrightarrow> cb_frame cb c2"
    by (blast intro: cb_frame_trans backup_list_append_frame)
  have fin: "\<And>c r0. cb_frame cb c \<Longrightarrow>
      backup_start_err e w c r0 None (Some (WT_METADATA_BACKUP e)) = (r, w1, cb1) \<Longrightarrow>
      start_kept w cb r w1 cb1"
    using err_kept [OF _ _ w] by blast
  obtain r1 c1 where a1: "backup_list_append e cb (WT_METADATA_BACKUP e) = (r1, c1)"
    by (cases "backup_list_append e cb (WT_METADATA_BACKUP e)")
  note f1 = app [OF cb_frame_refl a1]
  obtain r2 c2 where a2: "backup_list_append e c1 (WT_BASECONFIG e) = (r2, c2)"
    by (cases "backup_list_append e c1 (WT_BASECONFIG e)")
  note f2 = app [OF f1 a2]
  obtain r3 c3 where a3: "backup_list_append e c1 (WT_USERCONFIG e) = (r3, c3)"
    by (cases "backup_list_append e c1 (WT_USERCONFIG e)")
  note f3 = app [OF f1 a3]
  obtain r4 c4 where a4: "backup_list_append e c2 (WT_USERCONFIG e) = (r4, c4)"
    by (cases "backup_list_append e c2 (WT_USERCONFIG e)")
  note f4 = app [OF f2 a4]
  have f5: "\<And>c r5 c5. cb_frame cb c \<Longrightarrow> backup_list_append e c (WT_WIREDTIGER e) = (r5, c5) \<Longrightarrow>
     backup_start_err e w c5 r5 None (Some (WT_METADATA_BACKUP e)) = (r, w1, cb1) \<Longrightarrow>
     start_kept w cb r w1 cb1"
    using app fin by blast
  from assms False show ?thesis
    using a1 a2 a3 a4 fin [OF f1] fin [OF f2] fin [OF f3] fin [OF f4]
      f5 [OF f1] f5 [OF f2] f5 [OF f3] f5 [OF f4]
    by (auto simp: backup_start_files_def split: option.splits sum.splits if_splits prod.splits)
qed

lemma err_ok:
  assumes "backup_start_err e w cb r0 srcfs dest = (None, w1, cb1)"
  shows "r0 = None \<and> file_list cb1 = file_list cb \<and> list_inv cb1 = list_inv cb"
proof -
  from backup_start_err_frame [OF assms] have c: "cb1 = cb\<lparr>cb_bfs := None\<rparr>"
    and r: "\<forall>err. r0 = Some err \<longrightarrow> None = Some err \<and> w1 = w" by simp_all
  from r have "r0 = None" by (cases r0) auto
  with c show ?thesis by (simp add: file_list_def list_inv_def terminated_def)
qed

lemma backup_start_files_ok:
  assumes inv: "list_inv cb" and ok: "backup_start_files e w cb lo = (None, w1, cb1)"
  shows "list_inv cb1 \<and> file_list cb1 = file_list cb @ standard_appends e w lo"
proof (cases lo)
  case True
  obtain r0 w0 h where o: "wt_fopen e w (WT_INCREMENTAL_SRC e) = (r0, w0, h)"
    by (cases "wt_fopen e w (WT_INCREMENTAL_SRC e)")
  obtain r2 cb2 where a: "backup_list_append e cb (WT_INCREMENTAL_BACKUP e) = (r2, cb2)"
    by (cases "backup_list_append e cb (WT_INCREMENTAL_BACKUP e)")
  from ok True o a have
    "(r0 \<noteq> None \<and> backup_start_err e w0 cb r0 h (Some (WT_INCREMENTAL_BACKUP e)) = (None, w1, cb1)) \<or>
     backup_start_err e w0 cb2 r2 h (Some (WT_INCREMENTAL_BACKUP e)) = (None, w1, cb1)"
    by (auto simp: backup_start_files_def split: option.splits)
  then have e2: "backup_start_err e w0 cb2 r2 h (Some (WT_INCREMENTAL_BACKUP e)) = (None, w1, cb1)"
    using err_ok by blast
  from err_ok [OF e2] have r2: "r2 = None" and f: "file_list cb1 = file_list cb2"
    and i: "list_inv cb1 = list_inv cb2" by simp_all
  from backup_list_append_name [OF inv a [unfolded r2]] f i True show ?thesis
    by (simp add: standard_appends_def)
next
  case False
  let ?ex1 = "files w (WT_BASECONFIG e) \<noteq> None"
  let ?ex2 = "files w (WT_USERCONFIG e) \<noteq> None"
  obtain r1 c1 where a1: "backup_list_append e cb (WT_METADATA_BACKUP e) = (r1, c1)"
    by (cases "backup_list_append e cb (WT_METADATA_BACKUP e)")
  obtain r2 c2 where a2:
    "(if ?ex1 then backup_list_append e c1 (WT_BASECONFIG e) else (None, c1)) = (r2, c2)"
    by (cases "if ?ex1 then backup_list_append e c1 (WT_BASECONFIG e) else (None, c1)")
  obtain r3 c3 where a3:
    "(if ?ex2 then backup_list_append e c2 (WT_USERCONFIG e) else (None, c2)) = (r3, c3)"
    by (cases "if ?ex2 then backup_list_append e c2 (WT_USERCONFIG e) else (None, c2)")
  obtain r4 c4 where a4: "backup_list_append e c3 (WT_WIREDTIGER e) = (r4, c4)"
    by (cases "backup_list_append e c3 (WT_WIREDTIGER e)")
  have noerr: "\<And>c err. backup_start_err e w c (Some err) None (Some (WT_METADATA_BACKUP e))
      \<noteq> (None, w1, cb1)"
    using err_ok by blast
  from ok False a1 a2 a3 a4 noerr
  have all: "r1 = None \<and> r2 = None \<and> r3 = None \<and>
      fs_exist_ret e (WT_BASECONFIG e) = None \<and> fs_exist_ret e (WT_USERCONFIG e) = None \<and>
      backup_start_err e w c4 r4 None (Some (WT_METADATA_BACKUP e)) = (None, w1, cb1)"
    by (auto simp: backup_start_files_def wt_fs_exist_def
             split: option.splits sum.splits prod.splits if_splits)
  from all have e4: "backup_start_err e w c4 r4 None (Some (WT_METADATA_BACKUP e)) = (None, w1, cb1)"
    by simp
  from err_ok [OF e4] have r4: "r4 = None" and f: "file_list cb1 = file_list c4"
    and i: "list_inv cb1 = list_inv c4" by simp_all
  from backup_list_append_name [OF inv] a1 all
  have i1: "list_inv c1" and f1: "file_list c1 = file_list cb @ [on_disk_name (WT_METADATA_BACKUP e)]"
    by simp_all
  have i2: "list_inv c2" and f2: "file_list c2 = file_list c1 @
      (if ?ex1 then [on_disk_name (WT_BASECONFIG e)] else [])"
    using backup_list_append_name [OF i1, of e "WT_BASECONFIG e" c2] a2 all i1
    by (auto split: if_splits)
  have i3: "list_inv c3" and f3: "file_list c3 = file_list c2 @
      (if ?ex2 then [on_disk_name (WT_USERCONFIG e)] else [])"
    using backup_list_append_name [OF i2, of e "WT_USERCONFIG e" c3] a3 all i2
    by (auto split: if_splits)
  from backup_list_append_name [OF i3 a4 [unfolded r4]]
  have i4: "list_inv c4" and f4: "file_list c4 = file_list c3 @ [on_disk_name (WT_WIREDTIGER e)]"
    by simp_all
  from f i i4 f4 f3 f2 f1 False show ?thesis
    by (simp add: standard_appends_def)
qed

lemma start_kept_compose:
  assumes "start_kept w0 cb0 r w1 cb1" "cb_frame cb cb0" "files_frame w fs w0"
  shows "start_kept w cb r w1 cb1"
  using assms(1) cb_frame_fields [OF assms(2)] files_frame_fields [OF assms(3)]
  by (simp add: start_kept_def)

lemma err_kept_plain:
  "backup_start_err e w0 cb0 r0 srcfs dest = (r, w1, cb1) \<Longrightarrow> start_kept w0 cb0 r w1 cb1"
  using err_kept [OF _ cb_frame_refl, of e w0 cb0 r0 srcfs dest r w1 cb1 w0] by simp

lemma standard_appends_cong:
  "files w1 (WT_BASECONFIG e) = files w (WT_BASECONFIG e) \<Longrightarrow>
   files w1 (WT_USERCONFIG e) = files w (WT_USERCONFIG e) \<Longrightarrow>
   standard_appends e w1 lo = standard_appends e w lo"
  by (simp add: standard_appends_def)

lemma backup_start_targets_kept:
  assumes "backup_start_targets e w cb False cfg = (r, w1, cb1)"
  shows "start_kept w cb r w1 cb1"
proof -
  obtain ru wu cbu fu lou where u: "backup_uri e w cb cfg False = (ru, wu, cbu, fu, lou)"
    by (cases "backup_uri e w cb cfg False") auto
  from backup_uri_frame [OF u] have cu: "cb_frame cb cbu" and wu: "files_frame w (cb_bfs cb) wu"
    by simp_all
  obtain rl cbl where l: "backup_log_append e cbu True = (rl, cbl)"
    by (cases "backup_log_append e cbu True")
  have cl: "cb_frame cb cbl" using cu backup_log_append_frame [OF l] by (rule cb_frame_trans)
  obtain ra wa cba where a: "backup_all e wu cbl = (ra, wa, cba)"
    by (cases "backup_all e wu cbl")
  from backup_all_frame [OF a] have ca0: "cb_frame cbl cba" and wa0: "files_frame wu (cb_bfs cbl) wa"
    by simp_all
  have ca: "cb_frame cb cba" using cl ca0 by (rule cb_frame_trans)
  have wa: "files_frame w (cb_bfs cb) wa"
    using wu wa0 cb_frame_fields [OF cl] by (auto intro: files_frame_trans)
  have k1: "\<And>r0. backup_start_err e wu cbu r0 None None = (r, w1, cb1) \<Longrightarrow> start_kept w cb r w1 cb1"
    using start_kept_compose [OF err_kept_plain cu wu] by blast
  have k2: "\<And>r0. backup_start_err e wu cbl r0 None None = (r, w1, cb1) \<Longrightarrow> start_kept w cb r w1 cb1"
    using start_kept_compose [OF err_kept_plain cl wu] by blast
  have k3: "\<And>r0. backup_start_err e wa cba r0 None None = (r, w1, cb1) \<Longrightarrow> start_kept w cb r w1 cb1"
    using start_kept_compose [OF err_kept_plain ca wa] by blast
  have k4: "backup_start_files e wu cbu lou = (r, w1, cb1) \<Longrightarrow> start_kept w cb r w1 cb1"
    using start_kept_compose [OF backup_start_files_kept cu wu] by blast
  have k5: "backup_start_files e wa cba lou = (r, w1, cb1) \<Longrightarrow> start_kept w cb r w1 cb1"
    using start_kept_compose [OF backup_start_files_kept ca wa] by blast
  from assms u l a k1 k2 k3 k4 k5 show ?thesis
    by (auto simp: backup_start_targets_def split: option.splits if_splits)
qed

lemma backup_start_targets_ok:
  assumes inv: "list_inv cb" and bfs: "cb_bfs cb = Some (WT_BACKUP_TMP e)"
    and d1: "WT_BASECONFIG e \<noteq> WT_BACKUP_TMP e" and d2: "WT_USERCONFIG e \<noteq> WT_BACKUP_TMP e"
    and ok: "backup_start_targets e w cb False cfg = (None, w1, cb1)"
  shows "list_inv cb1 \<and>
         file_list cb1 = file_list cb @
           (if target_items cfg = []
            then log_appends e True @ walk_appends e (map fst (metadata e))
            else target_appends e (target_items cfg)) @
           standard_appends e w (log_only_targets (target_items cfg))"
proof -
  obtain ru wu cbu fu lou where u: "backup_uri e w cb cfg False = (ru, wu, cbu, fu, lou)"
    by (cases "backup_uri e w cb cfg False") auto
  have noerr: "\<And>w0 c err s d. backup_start_err e w0 c (Some err) s d \<noteq> (None, w1, cb1)"
    using err_ok by blast
  from ok u noerr have ru: "ru = None"
    by (cases ru) (auto simp: backup_start_targets_def)
  from backup_uri_frame [OF u] have cu: "cb_frame cb cbu" and wu: "files_frame w (cb_bfs cb) wu"
    by simp_all
  from backup_uri_ok [OF inv u [unfolded ru]]
  have iu: "list_inv cbu"
    and flu: "file_list cbu = file_list cb @ target_appends e (target_items cfg)"
    and fu: "fu = (target_items cfg \<noteq> [])" and lou: "lou = log_only_targets (target_items cfg)"
    by simp_all
  have su: "standard_appends e wu lou = standard_appends e w lou"
    using files_frame_other [OF wu] bfs d1 d2 by (intro standard_appends_cong) auto
  show ?thesis
  proof (cases "target_items cfg = []")
    case False
    with ok u ru fu have "backup_start_files e wu cbu lou = (None, w1, cb1)"
      by (simp add: backup_start_targets_def)
    from backup_start_files_ok [OF iu this] flu su lou False show ?thesis by simp
  next
    case True
    obtain rl cbl where l: "backup_log_append e cbu True = (rl, cbl)"
      by (cases "backup_log_append e cbu True")
    from ok u ru fu True l noerr have rl: "rl = None"
      by (cases rl) (auto simp: backup_start_targets_def)
    from backup_log_append_ok [OF iu l [unfolded rl]]
    have il: "list_inv cbl" and fll: "file_list cbl = file_list cbu @ log_appends e True"
      by simp_all
    have cl: "cb_frame cb cbl" using cu backup_log_append_frame [OF l] by (rule cb_frame_trans)
    obtain ra wa cba where a: "backup_all e wu cbl = (ra, wa, cba)"
      by (cases "backup_all e wu cbl")
    from ok u ru fu True l rl a noerr have ra: "ra = None"
      by (cases ra) (auto simp: backup_start_targets_def)
    from backup_all_ok [OF il a [unfolded ra]]
    have ia: "list_inv cba"
      and fla: "file_list cba = file_list cbl @ walk_appends e (map fst (metadata e))"
      by simp_all
    from backup_all_frame [OF a] have wa0: "files_frame wu (cb_bfs cbl) wa" by simp
    have wa: "files_frame w (cb_bfs cb) wa"
      using wu wa0 cb_frame_fields [OF cl] by (auto intro: files_frame_trans)
    have sa: "standard_appends e wa lou = standard_appends e w lou"
      using files_frame_other [OF wa] bfs d1 d2 by (intro standard_appends_cong) auto
    from ok u ru fu True l rl a ra have "backup_start_files e wa cba lou = (None, w1, cb1)"
      by (simp add: backup_start_targets_def)
    from backup_start_files_ok [OF ia this] fla fll flu sa lou True show ?thesis
      by (simp add: target_appends_Nil)
  qed
qed

lemma backup_uri_loop_flags:
  "backup_uri_loop e d t items tgl w cb found lo = (None, w1, cb1, f1, lo1) \<Longrightarrow>
   f1 = (if items = [] then found else (\<not> tgl \<or> found)) \<and>
   lo1 = (case items of [] \<Rightarrow> lo | [(k, v)] \<Rightarrow> WT_PREFIX_MATCH k ''log:'' \<and> \<not> tgl | _ \<Rightarrow> False)"
proof (induction items arbitrary: tgl w cb found lo)
  case Nil
  then show ?case by (simp split: if_splits)
next
  case (Cons it items)
  obtain k v where it: "it = (k, v)" by (cases it)
  note st = backup_uri_loop_step [OF Cons.prems [unfolded it]]
  show ?case
  proof (cases "WT_PREFIX_MATCH k ''log:''")
    case True
    with st obtain cb0 where
      r: "backup_uri_loop e d t items True w cb0 (\<not> tgl \<or> found) (\<not> tgl) = (None, w1, cb1, f1, lo1)"
      by blast
    from Cons.IH [OF r] True show ?thesis
      unfolding it by (cases items) (auto split: list.splits)
  next
    case False
    with st obtain w0 cb0 where
      r: "backup_uri_loop e d t items True w0 cb0 (\<not> tgl \<or> found) False = (None, w1, cb1, f1, lo1)"
      by blast
    from Cons.IH [OF r] False show ?thesis
      unfolding it by (cases items) (auto split: list.splits)
  qed
qed

lemma backup_uri_flags:
  assumes "backup_uri e w cb cfg d = (None, w1, cb1, f1, lo1)"
  shows "f1 = (target_items cfg \<noteq> []) \<and> lo1 = log_only_targets (target_items cfg)"
proof -
  from assms have
    "backup_uri_loop e d (target_end cfg) (target_items cfg) False w cb False False =
       (None, w1, cb1, f1, lo1)"
    by (auto simp: backup_uri_def split: option.splits)
  from backup_uri_loop_flags [OF this] show ?thesis
    by (auto simp: log_only_targets_def split: list.splits)
qed

lemma backup_start_targets_dup:
  assumes "backup_start_targets e w cb True cfg = (r, w1, cb1)"
  shows "curbackup_locker cb1 = curbackup_locker cb \<and> cb_next cb1 = cb_next cb \<and>
         hot_backup_start w1 = hot_backup_start w \<and> hot_backup_list w1 = hot_backup_list w \<and>
         session_backup_cursor w1 = session_backup_cursor w \<and>
         bkp_cursor_set w1 = bkp_cursor_set w \<and>
         (r = None \<longrightarrow> curbackup_dup cb1 \<and> session_backup_dup w1 \<and>
            log_only_targets (target_items cfg) \<and>
            (list_inv cb \<longrightarrow> list_inv cb1 \<and>
               file_list cb1 = file_list cb @ target_appends e (target_items cfg))) \<and>
         (r \<noteq> None \<longrightarrow> curbackup_dup cb1 = curbackup_dup cb \<and>
            session_backup_dup w1 = session_backup_dup w)"
proof -
  obtain ru wu cbu fu lou where u: "backup_uri e w cb cfg True = (ru, wu, cbu, fu, lou)"
    by (cases "backup_uri e w cb cfg True") auto
  from backup_uri_frame [OF u] have cu: "cb_frame cb cbu" and wu: "files_frame w (cb_bfs cb) wu"
    by simp_all
  note cf = cb_frame_fields [OF cu]
  note wf = files_frame_fields [OF wu]
  have er: "\<And>err. backup_start_err e wu cbu (Some err) None None = (r, w1, cb1) \<Longrightarrow>
      r = Some err \<and> w1 = wu \<and> cb1 = cbu\<lparr>cb_bfs := None\<rparr>"
    using backup_start_err_frame by blast
  show ?thesis
  proof (cases ru)
    case (Some err)
    with assms u have "backup_start_err e wu cbu (Some err) None None = (r, w1, cb1)"
      by (simp add: backup_start_targets_def)
    from er [OF this] cf wf show ?thesis by simp
  next
    case None
    note uo = backup_uri_ok [OF _ u [unfolded None]]
    show ?thesis
    proof (cases lou)
      case False
      with assms u None have "backup_start_err e wu cbu
          (Some (EINVAL ''duplicate backup cursor must be for logs only.'')) None None = (r, w1, cb1)"
        by (simp add: backup_start_targets_def)
      from er [OF this] cf wf show ?thesis by simp
    next
      case True
      with assms u None have r: "r = None" and w1: "w1 = wu\<lparr>session_backup_dup := True\<rparr>"
        and c1: "cb1 = cbu\<lparr>curbackup_dup := True\<rparr>"
        by (simp_all add: backup_start_targets_def)
      have lo: "log_only_targets (target_items cfg)"
        using backup_uri_flags [OF u [unfolded None]] True by simp
      have li: "list_inv cb \<Longrightarrow> list_inv cb1 \<and>
               file_list cb1 = file_list cb @ target_appends e (target_items cfg)"
        using uo c1 by (simp add: list_inv_def terminated_def file_list_def)
      from r w1 c1 lo li cf wf show ?thesis by simp
    qed
  qed
qed

lemma list_inv_reset: "list_inv (cb\<lparr>cb_next := 0, cb_list := None, cb_list_next := 0\<rparr>)"
  by (simp add: list_inv_def terminated_def file_list_def)

lemma file_list_reset: "file_list (cb\<lparr>cb_next := 0, cb_list := None, cb_list_next := 0\<rparr>) = []"
  by (simp add: file_list_def)

lemma backup_start_primary_kept:
  assumes im: "inmem_unsupported_op e = None" and pin: "hot_backup_start w = 0"
    and st: "backup_start e w cb False cfg = (r, w1, cb1)"
  shows "curbackup_locker cb1 \<and> curbackup_dup cb1 = curbackup_dup cb \<and> cb_next cb1 = 0 \<and>
         cb_bfs cb1 = None \<and> session_backup_dup w1 = session_backup_dup w \<and>
         bkp_cursor_set w1 = bkp_cursor_set w \<and>
         hot_backup_start w1 = ckpt_most_recent e \<and>
         (r = None \<longrightarrow> hot_backup_list w1 = cb_list cb1 \<and> session_backup_cursor w1) \<and>
         (r \<noteq> None \<longrightarrow> hot_backup_list w1 = None)"
proof -
  let ?cb0 = "cb\<lparr>cb_next := 0, cb_list := None, cb_list_next := 0\<rparr>"
  let ?w1 = "w\<lparr>hot_backup_start := ckpt_most_recent e, hot_backup_list := None\<rparr>"
  let ?cb1 = "?cb0\<lparr>curbackup_locker := True\<rparr>"
  obtain ro wo h where o: "wt_fopen e ?w1 (WT_BACKUP_TMP e) = (ro, wo, h)"
    by (cases "wt_fopen e ?w1 (WT_BACKUP_TMP e)")
  have wo: "wo = ?w1\<lparr>files := files wo\<rparr>" using o by (rule wt_fopen_files)
  have fo: "files_frame ?w1 (Some (WT_BACKUP_TMP e)) wo"
    unfolding files_frame_def using wo o by (auto simp: wt_fopen_def split: option.splits)
  have k: "start_kept ?w1 ?cb1 r w1 cb1"
  proof (cases ro)
    case (Some err)
    with st im pin o have "backup_start_err e wo ?cb1 (Some err) None None = (r, w1, cb1)"
      by (simp add: backup_start_def)
    from err_kept [OF this cb_frame_refl wo] show ?thesis .
  next
    case None
    with st im pin o have t: "backup_start_targets e wo (?cb1\<lparr>cb_bfs := h\<rparr>) False cfg = (r, w1, cb1)"
      by (simp add: backup_start_def)
    from backup_start_targets_kept [OF t]
    have "start_kept wo (?cb1\<lparr>cb_bfs := h\<rparr>) r w1 cb1" .
    then have "start_kept wo ?cb1 r w1 cb1" by (simp add: start_kept_def)
    then show ?thesis using wo
      by (metis cb_frame_refl files_frame_refl start_kept_compose fo)
  qed
  then show ?thesis by (simp add: start_kept_def)
qed

lemma backup_start_primary_ok:
  assumes d1: "WT_BASECONFIG e \<noteq> WT_BACKUP_TMP e" and d2: "WT_USERCONFIG e \<noteq> WT_BACKUP_TMP e"
    and st: "backup_start e w cb False cfg = (None, w1, cb1)"
  shows "list_inv cb1 \<and> file_list cb1 = expected_list e w False cfg \<and>
         inmem_unsupported_op e = None \<and> hot_backup_start w = 0"
proof -
  let ?cb0 = "cb\<lparr>cb_next := 0, cb_list := None, cb_list_next := 0\<rparr>"
  let ?w1 = "w\<lparr>hot_backup_start := ckpt_most_recent e, hot_backup_list := None\<rparr>"
  let ?cb1 = "?cb0\<lparr>curbackup_locker := True\<rparr>"
  from st have im: "inmem_unsupported_op e = None" and pin: "hot_backup_start w = 0"
    by (auto simp: backup_start_def Let_def split: option.splits if_splits)
  obtain ro wo h where o: "wt_fopen e ?w1 (WT_BACKUP_TMP e) = (ro, wo, h)"
    by (cases "wt_fopen e ?w1 (WT_BACKUP_TMP e)")
  have noerr: "\<And>w0 c err s d. backup_start_err e w0 c (Some err) s d \<noteq> (None, w1, cb1)"
    using err_ok by blast
  from st im pin o noerr have ro: "ro = None"
    by (cases ro) (auto simp: backup_start_def)
  from o ro have h: "h = Some (WT_BACKUP_TMP e)"
    and fw: "files wo = (files w)(WT_BACKUP_TMP e \<mapsto> [])"
    by (auto simp: wt_fopen_def split: option.splits)
  from st im pin o ro
  have t: "backup_start_targets e wo (?cb1\<lparr>cb_bfs := h\<rparr>) False cfg = (None, w1, cb1)"
    by (simp add: backup_start_def)
  have i: "list_inv (?cb1\<lparr>cb_bfs := h\<rparr>)" by (simp add: list_inv_def terminated_def file_list_def)
  have b: "cb_bfs (?cb1\<lparr>cb_bfs := h\<rparr>) = Some (WT_BACKUP_TMP e)" using h by simp
  have f0: "file_list (?cb1\<lparr>cb_bfs := h\<rparr>) = []" by (simp add: file_list_def)
  have s: "\<And>lo. standard_appends e wo lo = standard_appends e w lo"
    using fw d1 d2 by (intro standard_appends_cong) auto
  from backup_start_targets_ok [OF i b d1 d2 t] f0 s im pin show ?thesis
    by (simp add: expected_list_def)
qed

lemma backup_start_dup_summary:
  assumes st: "backup_start e w cb True cfg = (r, w1, cb1)"
  shows "curbackup_locker cb1 = curbackup_locker cb \<and> cb_next cb1 = 0 \<and>
         hot_backup_start w1 = hot_backup_start w \<and> hot_backup_list w1 = hot_backup_list w \<and>
         session_backup_cursor w1 = session_backup_cursor w \<and>
         bkp_cursor_set w1 = bkp_cursor_set w \<and>
         (r = None \<longrightarrow> curbackup_dup cb1 \<and> session_backup_dup w1 \<and> \<not> session_backup_dup w \<and>
            log_only_targets (target_items cfg) \<and> list_inv cb1 \<and>
            file_list cb1 = expected_list e w True cfg) \<and>
         (r \<noteq> None \<longrightarrow> curbackup_dup cb1 = curbackup_dup cb \<and>
            session_backup_dup w1 = session_backup_dup w)"
proof -
  let ?cb0 = "cb\<lparr>cb_next := 0, cb_list := None, cb_list_next := 0\<rparr>"
  show ?thesis
  proof (cases "inmem_unsupported_op e = None \<and> \<not> session_backup_dup w")
    case False
    with st show ?thesis by (auto simp: backup_start_def Let_def split: option.splits)
  next
    case True
    with st have t: "backup_start_targets e w ?cb0 True cfg = (r, w1, cb1)"
      by (simp add: backup_start_def)
    from backup_start_targets_dup [OF t] True list_inv_reset [of cb] file_list_reset [of cb]
    show ?thesis by (auto simp: expected_list_def)
  qed
qed

section \<open>The model on the example database\<close>

lemmas model_defs = wt_curbackup_open_def backup_start_def backup_start_targets_def
  backup_start_files_def backup_start_err_def backup_uri_def backup_all_def
  backup_list_uri_append_def backup_log_append_def backup_list_append_def
  wt_realloc_def_def wt_fopen_def wt_fprintf_def wt_sync_and_rename_def wt_fs_exist_def
  wt_remove_if_exists_def wt_metadata_search_def schema_worker_def WT_TRET_def
  WT_PREFIX_MATCH_def curbackup_close_def backup_stop_def backup_free_def
  wt_backup_file_remove_def calloc_cursor_def

lemmas example_defs = example_env_def idle_world_def no_targets_def busy_world_def
  log_target_def two_log_targets_def las_target_def table_target_def

lemma open_idle_full:
  "wt_curbackup_open example_env idle_world False no_targets =
     (None, busy_world,
      Some (calloc_cursor\<lparr>cb_maxid := 1,
              cb_list := Some [Some ''WiredTigerLog.1'', Some ''T.wt'', Some ''WiredTiger.backup'',
                               Some ''WiredTiger'', None],
              cb_list_next := 4, curbackup_locker := True\<rparr>))"
  by (simp add: model_defs example_defs Let_def)

lemma open_busy_primary:
  "wt_curbackup_open example_env busy_world False no_targets =
     (Some (EINVAL ''there is already a backup cursor open''),
      busy_world\<lparr>bkp_cursor_set := False\<rparr>, None)"
  by (simp add: model_defs example_defs Let_def)

lemma open_failing:
  "fst (wt_curbackup_open failing_env idle_world False no_targets) = Some (ERR 12)"
  by (simp add: model_defs example_defs failing_env_def Let_def)

lemma open_idle_two_logs:
  "wt_curbackup_open example_env idle_world False two_log_targets =
     (None,
      idle_world\<lparr>hot_backup_start := 7,
        hot_backup_list := Some [Some ''WiredTigerLog.1'', Some ''WiredTigerLog.1'',
                                 Some ''WiredTiger.backup'', Some ''WiredTiger'', None],
        session_backup_cursor := True, bkp_cursor_set := True,
        files := [''T.wt'' \<mapsto> ''data'', ''WiredTiger.backup'' \<mapsto> []]\<rparr>,
      Some (calloc_cursor\<lparr>cb_maxid := 1,
              cb_list := Some [Some ''WiredTigerLog.1'', Some ''WiredTigerLog.1'',
                               Some ''WiredTiger.backup'', Some ''WiredTiger'', None],
              cb_list_next := 4, curbackup_locker := True\<rparr>))"
  by (simp add: model_defs example_defs Let_def)

lemma open_busy_dup_log:
  "wt_curbackup_open example_env busy_world True log_target =
     (None, busy_world\<lparr>session_backup_dup := True\<rparr>,
      Some (calloc_cursor\<lparr>cb_maxid := 1, cb_list := Some [Some ''WiredTigerLog.1'', None],
              cb_list_next := 1, curbackup_dup := True\<rparr>))"
  by (simp add: model_defs example_defs Let_def)

lemma start_busy_dup_log:
  "backup_start example_env busy_world calloc_cursor True log_target =
     (None, busy_world\<lparr>session_backup_dup := True\<rparr>,
      calloc_cursor\<lparr>cb_maxid := 1, cb_list := Some [Some ''WiredTigerLog.1'', None],
              cb_list_next := 1, curbackup_dup := True\<rparr>)"
  by (simp add: model_defs example_defs Let_def)

lemma uri_busy_dup_none:
  "backup_uri example_env busy_world
     (calloc_cursor\<lparr>cb_next := 0, cb_list := None, cb_list_next := 0\<rparr>) no_targets True =
     (None, busy_world, calloc_cursor, False, False)"
  by (simp add: backup_uri_def no_targets_def calloc_cursor_def)

lemma uri_busy_dup_las:
  "backup_uri example_env busy_world
     (calloc_cursor\<lparr>cb_next := 0, cb_list := None, cb_list_next := 0\<rparr>) las_target True =
     (None, busy_world, calloc_cursor, True, False)"
  by (simp add: model_defs example_defs)

text \<open>
  A start that fails after the pin, on a file system that then fails to remove the temporary
  snapshot file: the open fails and the file stays.
\<close>

lemma open_stuck:
  "calloc_one stuck_env = None \<and> inmem_unsupported_op stuck_env = None \<and>
   fst (wt_curbackup_open stuck_env idle_world False no_targets) \<noteq> None \<and>
   remove_ret stuck_env (WT_BACKUP_TMP stuck_env) \<noteq> None \<and>
   files (fst (snd (wt_curbackup_open stuck_env idle_world False no_targets)))
     (WT_BACKUP_TMP stuck_env) \<noteq> None"
  by (simp add: model_defs example_defs failing_env_def stuck_env_def Let_def)

lemma open_busy_dup_none:
  "wt_curbackup_open example_env busy_world True no_targets =
     (Some (EINVAL ''duplicate backup cursor must be for logs only.''),
      busy_world\<lparr>bkp_cursor_set := False\<rparr>, None)"
  by (simp add: model_defs example_defs Let_def)


section \<open>Opening a backup cursor\<close>

lemma backup_start_targets_inv:
  assumes inv: "list_inv cb" and ok: "backup_start_targets e w cb False cfg = (None, w1, cb1)"
  shows "list_inv cb1"
proof -
  obtain ru wu cbu fu lou where u: "backup_uri e w cb cfg False = (ru, wu, cbu, fu, lou)"
    by (cases "backup_uri e w cb cfg False") auto
  have noerr: "\<And>w0 c err s d. backup_start_err e w0 c (Some err) s d \<noteq> (None, w1, cb1)"
    using err_ok by blast
  from ok u noerr have ru: "ru = None"
    by (cases ru) (auto simp: backup_start_targets_def)
  from backup_uri_ok [OF inv u [unfolded ru]] have iu: "list_inv cbu" by simp
  show ?thesis
  proof (cases fu)
    case True
    with ok u ru have "backup_start_files e wu cbu lou = (None, w1, cb1)"
      by (simp add: backup_start_targets_def)
    from backup_start_files_ok [OF iu this] show ?thesis by simp
  next
    case False
    obtain rl cbl where l: "backup_log_append e cbu True = (rl, cbl)"
      by (cases "backup_log_append e cbu True")
    from ok u ru False l noerr have rl: "rl = None"
      by (cases rl) (auto simp: backup_start_targets_def)
    from backup_log_append_ok [OF iu l [unfolded rl]] have il: "list_inv cbl" by simp
    obtain ra wa cba where a: "backup_all e wu cbl = (ra, wa, cba)"
      by (cases "backup_all e wu cbl")
    from ok u ru False l rl a noerr have ra: "ra = None"
      by (cases ra) (auto simp: backup_start_targets_def)
    from backup_all_ok [OF il a [unfolded ra]] have ia: "list_inv cba" by simp
    from ok u ru False l rl a ra have "backup_start_files e wa cba lou = (None, w1, cb1)"
      by (simp add: backup_start_targets_def)
    from backup_start_files_ok [OF ia this] show ?thesis by simp
  qed
qed

lemma wt_curbackup_open_cursor:
  assumes op: "wt_curbackup_open e w d cfg = (None, w1, c)"
  shows "\<exists>cb1. c = Some cb1 \<and> terminated cb1 \<and> cb_next cb1 = 0 \<and>
           cb_list_next cb1 = length (file_list cb1)"
proof -
  let ?w = "w\<lparr>bkp_cursor_set := True\<rparr>"
  obtain r0 wa cba where st: "backup_start e ?w calloc_cursor d cfg = (r0, wa, cba)"
    by (cases "backup_start e ?w calloc_cursor d cfg")
  from op st have c: "c = Some cba" and r0: "r0 = None"
    by (auto simp: wt_curbackup_open_def Let_def WT_TRET_def
             split: option.splits if_splits prod.splits)
  have "list_inv cba \<and> cb_next cba = 0"
  proof (cases d)
    case True
    with st have st': "backup_start e ?w calloc_cursor True cfg = (r0, wa, cba)" by simp
    from backup_start_dup_summary [OF st'] r0 show ?thesis by simp
  next
    case False
    with st r0 have st': "backup_start e ?w calloc_cursor False cfg = (None, wa, cba)" by simp
    then have im: "inmem_unsupported_op e = None" and pin: "hot_backup_start ?w = 0"
      by (auto simp: backup_start_def Let_def split: option.splits if_splits)
    let ?cb1 = "calloc_cursor\<lparr>cb_next := 0, cb_list := None, cb_list_next := 0,
                  curbackup_locker := True\<rparr>"
    let ?w1 = "?w\<lparr>hot_backup_start := ckpt_most_recent e, hot_backup_list := None\<rparr>"
    obtain ro wo h where o: "wt_fopen e ?w1 (WT_BACKUP_TMP e) = (ro, wo, h)"
      by (cases "wt_fopen e ?w1 (WT_BACKUP_TMP e)")
    have noerr: "\<And>w0 c err s d. backup_start_err e w0 c (Some err) s d \<noteq> (None, wa, cba)"
      using err_ok by blast
    from st' im pin o noerr have ro: "ro = None"
      by (cases ro) (auto simp: backup_start_def)
    from st' im pin o ro
    have t: "backup_start_targets e wo (?cb1\<lparr>cb_bfs := h\<rparr>) False cfg = (None, wa, cba)"
      by (simp add: backup_start_def)
    have i: "list_inv (?cb1\<lparr>cb_bfs := h\<rparr>)"
      by (simp add: list_inv_def terminated_def file_list_def)
    from backup_start_targets_inv [OF i t] backup_start_primary_kept [OF im pin st']
    show ?thesis by simp
  qed
  with c show ?thesis by (simp add: list_inv_def)
qed

lemma expected_list_bkp:
  "expected_list e (w\<lparr>bkp_cursor_set := b\<rparr>) d cfg = expected_list e w d cfg"
  by (simp add: expected_list_def standard_appends_def)

lemma wt_curbackup_open_ok:
  assumes d1: "WT_BASECONFIG e \<noteq> WT_BACKUP_TMP e" and d2: "WT_USERCONFIG e \<noteq> WT_BACKUP_TMP e"
    and op: "wt_curbackup_open e w d cfg = (None, w1, c)"
  shows "\<exists>cb1. c = Some cb1 \<and> list_inv cb1 \<and> cb_next cb1 = 0 \<and>
           file_list cb1 = expected_list e w d cfg"
proof -
  let ?w = "w\<lparr>bkp_cursor_set := True\<rparr>"
  obtain r0 wa cba where st: "backup_start e ?w calloc_cursor d cfg = (r0, wa, cba)"
    by (cases "backup_start e ?w calloc_cursor d cfg")
  from op st have c: "c = Some cba" and r0: "r0 = None"
    by (auto simp: wt_curbackup_open_def Let_def WT_TRET_def
             split: option.splits if_splits prod.splits)
  show ?thesis
  proof (cases d)
    case True
    with st have st': "backup_start e ?w calloc_cursor True cfg = (r0, wa, cba)" by simp
    from backup_start_dup_summary [OF st'] r0 c True show ?thesis
      by (simp add: expected_list_bkp)
  next
    case False
    with st r0 have st': "backup_start e ?w calloc_cursor False cfg = (None, wa, cba)" by simp
    from backup_start_primary_ok [OF d1 d2 st']
    have i: "list_inv cba" and f: "file_list cba = expected_list e ?w False cfg"
      and im: "inmem_unsupported_op e = None" and pin: "hot_backup_start ?w = 0" by simp_all
    from backup_start_primary_kept [OF im pin st'] have "cb_next cba = 0" by simp
    with i f c False show ?thesis by (simp add: expected_list_bkp)
  qed
qed

lemma wt_backup_file_remove_files:
  assumes "wt_backup_file_remove e w = (r, w1)"
  shows "w1 = w\<lparr>files := files w1\<rparr> \<and>
         (\<forall>f \<in> {WT_BACKUP_TMP e, WT_INCREMENTAL_BACKUP e, WT_INCREMENTAL_SRC e,
                  WT_METADATA_BACKUP e}. remove_ret e f = None \<longrightarrow> files w1 f = None)"
  using assms
  by (auto simp: wt_backup_file_remove_def wt_remove_if_exists_def split: option.splits)


subsection \<open>Rollback of a failed start\<close>

text \<open>
  Claim C1, as amended. The claim as stated covers every error \<^verbatim>\<open>__backup_start\<close> returns for
  a cursor that is no duplicate; it fails for the errors returned before the cursor takes the
  locker flag (see \<open>C1_counterexample\<close>). What holds: when no backup is open
  (\<^verbatim>\<open>hot_backup_start\<close> is 0) and the in-memory check passes, the cursor pins the checkpoint
  and takes the locker flag, and then for every catalog, configuration and failure (of
  \<^verbatim>\<open>__backup_start\<close> or of \<^verbatim>\<open>__wt_cursor_init\<close>) the close inside \<^verbatim>\<open>__wt_curbackup_open\<close>
  rolls back: no cursor is returned, \<^verbatim>\<open>hot_backup_start\<close> is 0, \<^verbatim>\<open>hot_backup_list\<close> is NULL, the
  session's backup flag is clear, and each of the temporary snapshot file and the three
  marker files whose removal did not fail is gone. (A file whose removal fails stays:
  lemma \<open>open_stuck\<close>.)
\<close>

theorem C1_rollback_after_pin:
  assumes ca: "calloc_one e = None" and im: "inmem_unsupported_op e = None"
    and pin: "hot_backup_start w = 0"
    and op: "wt_curbackup_open e w False cfg = (Some err, w1, c)"
  shows "c = None \<and> hot_backup_start w1 = 0 \<and> hot_backup_list w1 = None \<and>
         \<not> session_backup_cursor w1 \<and>
         (\<forall>f \<in> {WT_BACKUP_TMP e, WT_INCREMENTAL_BACKUP e, WT_INCREMENTAL_SRC e,
                  WT_METADATA_BACKUP e}. remove_ret e f = None \<longrightarrow> files w1 f = None)"
proof -
  let ?w = "w\<lparr>bkp_cursor_set := True\<rparr>"
  obtain r0 wa cba where st: "backup_start e ?w calloc_cursor False cfg = (r0, wa, cba)"
    by (cases "backup_start e ?w calloc_cursor False cfg")
  have pin': "hot_backup_start ?w = 0" using pin by simp
  from backup_start_primary_kept [OF im pin' st]
  have lk: "curbackup_locker cba" and nd: "\<not> curbackup_dup cba"
    by (simp_all add: calloc_cursor_def)
  obtain rr wr where rm: "wt_backup_file_remove e (wa\<lparr>hot_backup_list := None\<rparr>) = (rr, wr)"
    by (cases "wt_backup_file_remove e (wa\<lparr>hot_backup_list := None\<rparr>)")
  from wt_backup_file_remove_files [OF rm]
  have wr: "wr = wa\<lparr>hot_backup_list := None, files := files wr\<rparr>"
    and gone: "\<forall>f \<in> {WT_BACKUP_TMP e, WT_INCREMENTAL_BACKUP e, WT_INCREMENTAL_SRC e,
                  WT_METADATA_BACKUP e}. remove_ret e f = None \<longrightarrow> files wr f = None"
    by simp_all
  have cl: "curbackup_close e wa cba =
      (WT_TRET None (WT_TRET None rr),
       wr\<lparr>hot_backup_start := 0, session_backup_cursor := False, bkp_cursor_set := False\<rparr>,
       backup_free cba)"
    using lk nd rm by (simp add: curbackup_close_def backup_stop_def)
  from op ca st cl
  have c: "c = None"
    and w1: "w1 = wr\<lparr>hot_backup_start := 0, session_backup_cursor := False, bkp_cursor_set := False\<rparr>"
    by (auto simp: wt_curbackup_open_def Let_def split: if_splits)
  have hl: "hot_backup_list wr = None" by (subst wr) simp
  from c w1 hl gone show ?thesis by simp
qed

theorem C1_rollback_after_pin_witness:
  "calloc_one failing_env = None \<and> inmem_unsupported_op failing_env = None \<and>
   hot_backup_start idle_world = 0 \<and>
   fst (wt_curbackup_open failing_env idle_world False no_targets) = Some (ERR 12) \<and>
   hot_backup_start (fst (snd (wt_curbackup_open failing_env idle_world False no_targets))) = 0 \<and>
   hot_backup_list (fst (snd (wt_curbackup_open failing_env idle_world False no_targets))) = None \<and>
   files (fst (snd (wt_curbackup_open failing_env idle_world False no_targets)))
     ''WiredTiger.backup.tmp'' = None"
proof -
  let ?o = "wt_curbackup_open failing_env idle_world False no_targets"
  have ca: "calloc_one failing_env = None" by (simp add: failing_env_def example_env_def)
  have im: "inmem_unsupported_op failing_env = None" by (simp add: failing_env_def example_env_def)
  have pin: "hot_backup_start idle_world = 0" by (simp add: idle_world_def)
  have op: "?o = (Some (ERR 12), fst (snd ?o), snd (snd ?o))"
    using open_failing by (metis prod.collapse)
  have rm: "remove_ret failing_env (WT_BACKUP_TMP failing_env) = None"
    and tmp: "WT_BACKUP_TMP failing_env = ''WiredTiger.backup.tmp''"
    by (simp_all add: failing_env_def example_env_def)
  from C1_rollback_after_pin [OF ca im pin op] rm tmp
  have "hot_backup_start (fst (snd ?o)) = 0" and "hot_backup_list (fst (snd ?o)) = None"
    and "files (fst (snd ?o)) ''WiredTiger.backup.tmp'' = None"
    by auto
  with ca im pin open_failing show ?thesis by blast
qed


text \<open>
  The counterexample to claim C1 as stated: a second backup cursor, opened while the first
  is open, fails with "there is already a backup cursor open"; it never held the locker
  flag, so its close leaves the pin, the published list and the snapshot file of the first
  backup in place.
\<close>

theorem C1_counterexample:
  "fst (wt_curbackup_open example_env busy_world False no_targets) =
     Some (EINVAL ''there is already a backup cursor open'') \<and>
   hot_backup_start (fst (snd (wt_curbackup_open example_env busy_world False no_targets))) = 7 \<and>
   hot_backup_list (fst (snd (wt_curbackup_open example_env busy_world False no_targets))) \<noteq> None \<and>
   files (fst (snd (wt_curbackup_open example_env busy_world False no_targets)))
     (WT_METADATA_BACKUP example_env) \<noteq> None"
  by (simp add: open_busy_primary) (simp add: busy_world_def example_env_def)


subsection \<open>The order of the list\<close>

text \<open>
  Claim C3, as amended. For a full backup (no target) of a catalog whose one file-backed
  entry has the on-disk name \<open>T\<close>, the list is: the log segments, then \<open>T\<close>, then the name of
  the metadata backup file, then the base and the user configuration file when they exist,
  and the \<^verbatim>\<open>WT_WIREDTIGER\<close> file last. (The claim puts \<open>T\<close> last; the code walks the catalog
  before it appends the standard names, see \<open>C3_counterexample\<close>.)
\<close>

theorem C3_full_backup_order:
  assumes d1: "WT_BASECONFIG e \<noteq> WT_BACKUP_TMP e" and d2: "WT_USERCONFIG e \<noteq> WT_BACKUP_TMP e"
    and full: "target_items cfg = []"
    and one: "walk_appends e (map fst (metadata e)) = [T]"
    and op: "wt_curbackup_open e w False cfg = (None, w1, Some cb1)"
  shows "file_list cb1 =
           log_appends e True @ [T] @ [on_disk_name (WT_METADATA_BACKUP e)] @
           (if files w (WT_BASECONFIG e) \<noteq> None then [on_disk_name (WT_BASECONFIG e)] else []) @
           (if files w (WT_USERCONFIG e) \<noteq> None then [on_disk_name (WT_USERCONFIG e)] else []) @
           [on_disk_name (WT_WIREDTIGER e)]"
proof -
  from wt_curbackup_open_ok [OF d1 d2 op]
  have "file_list cb1 = expected_list e w False cfg" by simp
  with full one show ?thesis
    by (simp add: expected_list_def standard_appends_def log_only_targets_def)
qed

theorem C3_full_backup_order_witness:
  "WT_BASECONFIG example_env \<noteq> WT_BACKUP_TMP example_env \<and>
   WT_USERCONFIG example_env \<noteq> WT_BACKUP_TMP example_env \<and>
   target_items no_targets = [] \<and>
   walk_appends example_env (map fst (metadata example_env)) = [''T.wt''] \<and>
   fst (wt_curbackup_open example_env idle_world False no_targets) = None \<and>
   file_list (calloc_cursor\<lparr>cb_maxid := 1,
              cb_list := Some [Some ''WiredTigerLog.1'', Some ''T.wt'', Some ''WiredTiger.backup'',
                               Some ''WiredTiger'', None],
              cb_list_next := 4, curbackup_locker := True\<rparr>) =
     [''WiredTigerLog.1'', ''T.wt'', ''WiredTiger.backup'', ''WiredTiger'']"
proof -
  have d1: "WT_BASECONFIG example_env \<noteq> WT_BACKUP_TMP example_env"
    and d2: "WT_USERCONFIG example_env \<noteq> WT_BACKUP_TMP example_env"
    by (simp_all add: example_env_def)
  have full: "target_items no_targets = []" by (simp add: no_targets_def)
  have one: "walk_appends example_env (map fst (metadata example_env)) = [''T.wt'']"
    by (simp add: example_env_def walk_appends_def copied_def on_disk_name_def WT_PREFIX_MATCH_def)
  have ex: "log_appends example_env True = [''WiredTigerLog.1'']"
    "on_disk_name (WT_METADATA_BACKUP example_env) = ''WiredTiger.backup''"
    "on_disk_name (WT_WIREDTIGER example_env) = ''WiredTiger''"
    "files idle_world (WT_BASECONFIG example_env) = None"
    "files idle_world (WT_USERCONFIG example_env) = None"
    by (simp_all add: example_env_def idle_world_def log_appends_def on_disk_name_def
          WT_PREFIX_MATCH_def)
  from C3_full_backup_order [OF d1 d2 full one open_idle_full] ex
  have "file_list (calloc_cursor\<lparr>cb_maxid := 1,
              cb_list := Some [Some ''WiredTigerLog.1'', Some ''T.wt'', Some ''WiredTiger.backup'',
                               Some ''WiredTiger'', None],
              cb_list_next := 4, curbackup_locker := True\<rparr>) =
     [''WiredTigerLog.1'', ''T.wt'', ''WiredTiger.backup'', ''WiredTiger'']" by simp
  with d1 d2 full one open_idle_full show ?thesis by simp
qed


text \<open>
  The counterexample to claim C3 as stated: the full backup of the example database, with
  logging on and the one table file \<open>T.wt\<close>, holds \<open>T.wt\<close> second and \<open>WiredTiger\<close> last.
\<close>

theorem C3_counterexample:
  "conn_log example_env \<and> target_items no_targets = [] \<and>
   walk_appends example_env (map fst (metadata example_env)) = [''T.wt''] \<and>
   fst (wt_curbackup_open example_env idle_world False no_targets) = None \<and>
   map_option file_list (snd (snd (wt_curbackup_open example_env idle_world False no_targets))) =
     Some [''WiredTigerLog.1'', ''T.wt'', ''WiredTiger.backup'', ''WiredTiger''] \<and>
   [''WiredTigerLog.1'', ''T.wt'', ''WiredTiger.backup'', ''WiredTiger''] \<noteq>
     [''WiredTigerLog.1'', ''WiredTiger.backup'', ''WiredTiger'', ''T.wt'']"
  by (simp add: open_idle_full)
     (simp add: example_env_def no_targets_def walk_appends_def copied_def on_disk_name_def
        WT_PREFIX_MATCH_def file_list_def calloc_cursor_def)


subsection \<open>The list is the sequence of appends\<close>

text \<open>
  Claim C8, as amended. For every completed construction (full, target-restricted, log-only
  or duplicate) the list of the cursor is the sequence of the names appended, in the order of
  the appends and one entry for each: the \<open>expected_list\<close> of the environment. Iterating
  the cursor returns exactly this sequence and then \<open>WT_NOTFOUND\<close>. The code removes no
  duplicate: a name appended twice is in the list twice (see \<open>C8_counterexample\<close>), so the
  list is free of duplicates only when the appended names are.
\<close>

theorem C8_list_is_append_sequence:
  assumes d1: "WT_BASECONFIG e \<noteq> WT_BACKUP_TMP e" and d2: "WT_USERCONFIG e \<noteq> WT_BACKUP_TMP e"
    and op: "wt_curbackup_open e w is_dup cfg = (None, w1, Some cb1)"
  shows "file_list cb1 = expected_list e w is_dup cfg \<and>
         fst (next_n (length (expected_list e w is_dup cfg)) cb1) =
           map (\<lambda>s. (None, Some s)) (expected_list e w is_dup cfg) \<and>
         fst (curbackup_next (snd (next_n (length (expected_list e w is_dup cfg)) cb1))) =
           Some WT_NOTFOUND"
proof -
  let ?L = "expected_list e w is_dup cfg"
  from wt_curbackup_open_ok [OF d1 d2 op]
  have i: "list_inv cb1" and p: "cb_next cb1 = 0" and f: "file_list cb1 = ?L" by simp_all
  from i have t: "terminated cb1" by (simp add: list_inv_def)
  have b: "cb_next cb1 + length ?L \<le> length (file_list cb1)" using p f by simp
  let ?c = "snd (next_n (length ?L) cb1)"
  from next_n_run [OF t b] p f
  have r: "fst (next_n (length ?L) cb1) = map (\<lambda>s. (None, Some s)) ?L"
    and pc: "cb_next ?c = length ?L" and lc: "cb_list ?c = cb_list cb1" by simp_all
  have tc: "terminated ?c" using t lc by (simp add: terminated_def)
  have fc: "file_list ?c = ?L" using f lc by (simp add: file_list_def)
  from next_at_end [of ?c] tc pc fc have "fst (curbackup_next ?c) = Some WT_NOTFOUND" by simp
  with f r show ?thesis by simp
qed

theorem C8_list_is_append_sequence_witness:
  "WT_BASECONFIG example_env \<noteq> WT_BACKUP_TMP example_env \<and>
   WT_USERCONFIG example_env \<noteq> WT_BACKUP_TMP example_env \<and>
   fst (wt_curbackup_open example_env busy_world True log_target) = None \<and>
   expected_list example_env busy_world True log_target = [''WiredTigerLog.1''] \<and>
   file_list (calloc_cursor\<lparr>cb_maxid := 1, cb_list := Some [Some ''WiredTigerLog.1'', None],
                cb_list_next := 1, curbackup_dup := True\<rparr>) = [''WiredTigerLog.1''] \<and>
   fst (next_n 1 (calloc_cursor\<lparr>cb_maxid := 1, cb_list := Some [Some ''WiredTigerLog.1'', None],
                cb_list_next := 1, curbackup_dup := True\<rparr>)) = [(None, Some ''WiredTigerLog.1'')]"
proof -
  let ?c = "calloc_cursor\<lparr>cb_maxid := 1, cb_list := Some [Some ''WiredTigerLog.1'', None],
                cb_list_next := 1, curbackup_dup := True\<rparr>"
  have d1: "WT_BASECONFIG example_env \<noteq> WT_BACKUP_TMP example_env"
    and d2: "WT_USERCONFIG example_env \<noteq> WT_BACKUP_TMP example_env"
    by (simp_all add: example_env_def)
  have ex: "expected_list example_env busy_world True log_target = [''WiredTigerLog.1'']"
    by (simp add: expected_list_def target_appends_def log_appends_def log_target_def
          example_env_def on_disk_name_def WT_PREFIX_MATCH_def)
  from C8_list_is_append_sequence [OF d1 d2 open_busy_dup_log]
  have "file_list ?c = [''WiredTigerLog.1'']"
    and "fst (next_n 1 ?c) = [(None, Some ''WiredTigerLog.1'')]"
    unfolding ex by simp_all
  with d1 d2 ex open_busy_dup_log show ?thesis by simp
qed


text \<open>
  The counterexample to claim C8 as stated: a backup whose target list names the log twice
  completes, and its list holds the log segment twice.
\<close>

theorem C8_counterexample:
  "fst (wt_curbackup_open example_env idle_world False two_log_targets) = None \<and>
   map_option file_list
     (snd (snd (wt_curbackup_open example_env idle_world False two_log_targets))) =
     Some [''WiredTigerLog.1'', ''WiredTigerLog.1'', ''WiredTiger.backup'', ''WiredTiger''] \<and>
   \<not> distinct [''WiredTigerLog.1'', ''WiredTigerLog.1'', ''WiredTiger.backup'', ''WiredTiger'']"
  by (simp add: open_idle_two_logs) (simp add: file_list_def calloc_cursor_def)


subsection \<open>Starting while a backup is open\<close>

text \<open>
  Claim C4. On a connection that supports backup cursors (the in-memory check passes): a
  start that is no duplicate, while \<^verbatim>\<open>hot_backup_start\<close> is set, fails with "there is already
  a backup cursor open" and leaves the connection, the session and the files as they are
  (\<^verbatim>\<open>__wt_curbackup_open\<close> then only clears \<^verbatim>\<open>session->bkp_cursor\<close>); a duplicate start, while
  the session has its duplicate flag set, fails with "there is already a duplicate backup
  cursor open", again changing nothing.
\<close>

theorem C4_begin_while_active:
  assumes "inmem_unsupported_op e = None"
  shows
    "(hot_backup_start w \<noteq> 0 \<longrightarrow>
        fst (backup_start e w cb False cfg) = Some (EINVAL ''there is already a backup cursor open'') \<and>
        fst (snd (backup_start e w cb False cfg)) = w) \<and>
     (session_backup_dup w \<longrightarrow>
        fst (backup_start e w cb True cfg) =
          Some (EINVAL ''there is already a duplicate backup cursor open'') \<and>
        fst (snd (backup_start e w cb True cfg)) = w) \<and>
     (hot_backup_start w \<noteq> 0 \<and> calloc_one e = None \<longrightarrow>
        wt_curbackup_open e w False cfg =
          (Some (EINVAL ''there is already a backup cursor open''), w\<lparr>bkp_cursor_set := False\<rparr>, None))"
  using assms
  by (simp add: backup_start_def wt_curbackup_open_def curbackup_close_def calloc_cursor_def
        WT_TRET_def Let_def)

theorem C4_begin_while_active_witness:
  "inmem_unsupported_op example_env = None \<and> hot_backup_start busy_world \<noteq> 0 \<and>
   calloc_one example_env = None \<and>
   wt_curbackup_open example_env busy_world False no_targets =
     (Some (EINVAL ''there is already a backup cursor open''),
      busy_world\<lparr>bkp_cursor_set := False\<rparr>, None) \<and>
   session_backup_dup (busy_world\<lparr>session_backup_dup := True\<rparr>) \<and>
   fst (backup_start example_env (busy_world\<lparr>session_backup_dup := True\<rparr>) calloc_cursor True
          log_target) =
     Some (EINVAL ''there is already a duplicate backup cursor open'')"
proof -
  have i: "inmem_unsupported_op example_env = None" by (simp add: example_env_def)
  have c: "calloc_one example_env = None" by (simp add: example_env_def)
  have p: "hot_backup_start busy_world \<noteq> 0" by (simp add: busy_world_def)
  have d: "session_backup_dup (busy_world\<lparr>session_backup_dup := True\<rparr>)" by simp
  from C4_begin_while_active [OF i, of busy_world calloc_cursor no_targets] p c
  have a: "wt_curbackup_open example_env busy_world False no_targets =
     (Some (EINVAL ''there is already a backup cursor open''),
      busy_world\<lparr>bkp_cursor_set := False\<rparr>, None)" by blast
  from C4_begin_while_active [OF i, of "busy_world\<lparr>session_backup_dup := True\<rparr>" calloc_cursor
      log_target] d
  have b: "fst (backup_start example_env (busy_world\<lparr>session_backup_dup := True\<rparr>) calloc_cursor
      True log_target) = Some (EINVAL ''there is already a duplicate backup cursor open'')"
    by blast
  from i p c a d b show ?thesis by blast
qed


subsection \<open>A duplicate cursor is for logs only\<close>

text \<open>
  Claim C7, at the input where the code misses it. A duplicate cursor is opened with the
  target \<open>table:T\<close>, a table of the catalog, while the primary backup is open. The target
  list is not log-only, and the comment in \<^verbatim>\<open>__backup_start\<close> says that the only usage accepted
  is the log target, "so error if not log only". But \<^verbatim>\<open>__backup_uri\<close> runs before that check
  and walks the target: \<^verbatim>\<open>__backup_list_uri_append\<close> writes the record of \<open>table:T\<close> to
  \<^verbatim>\<open>cb->bfs\<close>, which is NULL for a duplicate (the stream is opened only when \<^verbatim>\<open>!is_dup\<close>).
  The write is the model's undefined step, and the open does not return "duplicate backup
  cursor must be for logs only.".
\<close>

theorem C7_duplicate_table_target:
  "\<not> log_only_targets (target_items table_target) \<and>
   cb_bfs calloc_cursor = None \<and>
   backup_list_uri_append example_env (busy_world\<lparr>bkp_cursor_set := True\<rparr>) calloc_cursor
       ''table:T'' =
     (Some C_UNDEFINED, busy_world\<lparr>bkp_cursor_set := True\<rparr>, calloc_cursor) \<and>
   wt_curbackup_open example_env busy_world True table_target =
     (Some C_UNDEFINED, busy_world\<lparr>bkp_cursor_set := False\<rparr>, None) \<and>
   fst (wt_curbackup_open example_env busy_world True table_target) \<noteq>
     Some (EINVAL ''duplicate backup cursor must be for logs only.'')"
proof -
  have a: "\<not> log_only_targets (target_items table_target)"
    by (simp add: log_only_targets_def table_target_def WT_PREFIX_MATCH_def)
  have b: "cb_bfs calloc_cursor = None" by (simp add: calloc_cursor_def)
  have c: "backup_list_uri_append example_env (busy_world\<lparr>bkp_cursor_set := True\<rparr>) calloc_cursor
       ''table:T'' =
     (Some C_UNDEFINED, busy_world\<lparr>bkp_cursor_set := True\<rparr>, calloc_cursor)"
    by (simp add: backup_list_uri_append_def wt_metadata_search_def wt_fprintf_def
          WT_PREFIX_MATCH_def example_env_def calloc_cursor_def)
  have d: "wt_curbackup_open example_env busy_world True table_target =
     (Some C_UNDEFINED, busy_world\<lparr>bkp_cursor_set := False\<rparr>, None)"
    by (simp add: model_defs example_defs Let_def)
  from a b c d show ?thesis by simp
qed

text \<open>
  The same for every environment: a visit of a catalogued entry on a cursor without a stream
  is the undefined write, and a duplicate open whose first target is a non-log name the
  worker walks first, a table of the catalog, ends in it.
\<close>

lemma backup_list_uri_append_null_stream:
  assumes "cb_bfs cb = None" and "name \<noteq> WT_LAS_URI e"
    and "WT_PREFIX_MATCH name ''file:'' \<or> WT_PREFIX_MATCH name ''colgroup:'' \<or>
         WT_PREFIX_MATCH name ''index:'' \<or> WT_PREFIX_MATCH name ''lsm:'' \<or>
         WT_PREFIX_MATCH name (WT_SYSTEM_PREFIX e) \<or> WT_PREFIX_MATCH name ''table:''"
    and "map_of (metadata e) name = Some v"
  shows "backup_list_uri_append e w cb name = (Some C_UNDEFINED, w, cb)"
  using assms
  by (auto simp: backup_list_uri_append_def wt_metadata_search_def wt_fprintf_def)

lemma duplicate_open_walks_target:
  assumes "calloc_one e = None" and "inmem_unsupported_op e = None"
    and "\<not> session_backup_dup w"
    and "target_gets cfg = None" and "target_items cfg = (k, []) # items"
    and "scr_alloc e = None" and "buf_fmt_ret e k = None"
    and "\<not> WT_PREFIX_MATCH k ''log:''" and "schema_worker_names e k = Inr (k # ns)"
    and "k \<noteq> WT_LAS_URI e" and "WT_PREFIX_MATCH k ''table:''"
    and "map_of (metadata e) k = Some v"
  shows "fst (wt_curbackup_open e w True cfg) = Some C_UNDEFINED"
proof -
  let ?w = "w\<lparr>bkp_cursor_set := True\<rparr>"
  have n: "cb_bfs calloc_cursor = None" by (simp add: calloc_cursor_def)
  have cc: "calloc_cursor\<lparr>cb_next := 0, cb_list := None, cb_list_next := 0\<rparr> = calloc_cursor"
    by (simp add: calloc_cursor_def)
  have u: "backup_list_uri_append e ?w calloc_cursor k = (Some C_UNDEFINED, ?w, calloc_cursor)"
    using assms by (intro backup_list_uri_append_null_stream n) auto
  have s: "backup_start e ?w calloc_cursor True cfg = (Some C_UNDEFINED, ?w, calloc_cursor)"
    using assms u n
    by (simp add: backup_start_def backup_start_targets_def backup_uri_def schema_worker_def
          backup_start_err_def Let_def cc)
  from assms(1) s show ?thesis
    by (simp add: wt_curbackup_open_def curbackup_close_def WT_TRET_def calloc_cursor_def Let_def)
qed

text \<open>
  What the start of a duplicate cursor does guarantee: it succeeds only when the target list
  is for logs only (one target, naming the log), and then both duplicate flags are set; when
  it fails, neither duplicate flag is changed; when \<^verbatim>\<open>__backup_uri\<close> has returned 0 and the
  result is not log-only, the start fails with "duplicate backup cursor must be for logs
  only.", in particular when there is no target at all. The same holds for
  \<^verbatim>\<open>__wt_curbackup_open\<close>: success only for a log-only list, and after a failure no cursor and
  the session's duplicate flag as before.
\<close>

lemma duplicate_start_log_only:
  "(backup_start e w cb True cfg = (None, w1, cb1) \<longrightarrow>
      log_only_targets (target_items cfg) \<and> curbackup_dup cb1 \<and> session_backup_dup w1) \<and>
   (backup_start e w cb True cfg = (Some err, w1, cb1) \<longrightarrow>
      curbackup_dup cb1 = curbackup_dup cb \<and> session_backup_dup w1 = session_backup_dup w) \<and>
   (inmem_unsupported_op e = None \<and> \<not> session_backup_dup w \<and>
    backup_uri e w (cb\<lparr>cb_next := 0, cb_list := None, cb_list_next := 0\<rparr>) cfg True =
      (None, wu, cbu, found, False) \<longrightarrow>
      fst (backup_start e w cb True cfg) =
        Some (EINVAL ''duplicate backup cursor must be for logs only.'')) \<and>
   (inmem_unsupported_op e = None \<and> \<not> session_backup_dup w \<and> target_gets cfg = None \<and>
    target_items cfg = [] \<and> target_end cfg = WT_NOTFOUND \<longrightarrow>
      fst (backup_start e w cb True cfg) =
        Some (EINVAL ''duplicate backup cursor must be for logs only.'')) \<and>
   (wt_curbackup_open e w True cfg = (r, w2, c) \<longrightarrow>
      (r = None \<longrightarrow> log_only_targets (target_items cfg)) \<and>
      (r \<noteq> None \<longrightarrow> c = None \<and> session_backup_dup w2 = session_backup_dup w))"
proof -
  have p1: "backup_start e w cb True cfg = (None, w1, cb1) \<Longrightarrow>
      log_only_targets (target_items cfg) \<and> curbackup_dup cb1 \<and> session_backup_dup w1"
    using backup_start_dup_summary [of e w cb cfg None w1 cb1] by simp
  have p2: "backup_start e w cb True cfg = (Some err, w1, cb1) \<Longrightarrow>
      curbackup_dup cb1 = curbackup_dup cb \<and> session_backup_dup w1 = session_backup_dup w"
    using backup_start_dup_summary [of e w cb cfg "Some err" w1 cb1] by simp
  have p3: "inmem_unsupported_op e = None \<Longrightarrow> \<not> session_backup_dup w \<Longrightarrow>
      backup_uri e w (cb\<lparr>cb_next := 0, cb_list := None, cb_list_next := 0\<rparr>) cfg True =
        (None, wu, cbu, found, False) \<Longrightarrow>
      fst (backup_start e w cb True cfg) =
        Some (EINVAL ''duplicate backup cursor must be for logs only.'')"
    by (simp add: backup_start_def backup_start_targets_def backup_start_err_def Let_def
          WT_TRET_def split: option.splits)
  have p4: "inmem_unsupported_op e = None \<Longrightarrow> \<not> session_backup_dup w \<Longrightarrow>
      target_gets cfg = None \<Longrightarrow> target_items cfg = [] \<Longrightarrow> target_end cfg = WT_NOTFOUND \<Longrightarrow>
      fst (backup_start e w cb True cfg) =
        Some (EINVAL ''duplicate backup cursor must be for logs only.'')"
    by (simp add: backup_start_def backup_start_targets_def backup_start_err_def backup_uri_def
          Let_def WT_TRET_def split: option.splits)
  have p5: "wt_curbackup_open e w True cfg = (r, w2, c) \<Longrightarrow>
      (r = None \<longrightarrow> log_only_targets (target_items cfg)) \<and>
      (r \<noteq> None \<longrightarrow> c = None \<and> session_backup_dup w2 = session_backup_dup w)"
  proof -
    assume op: "wt_curbackup_open e w True cfg = (r, w2, c)"
    let ?w = "w\<lparr>bkp_cursor_set := True\<rparr>"
    obtain r0 wa cba where st: "backup_start e ?w calloc_cursor True cfg = (r0, wa, cba)"
      by (cases "backup_start e ?w calloc_cursor True cfg")
    note s = backup_start_dup_summary [OF st]
    show ?thesis
    proof (cases "calloc_one e")
      case (Some x)
      with op show ?thesis by (auto simp: wt_curbackup_open_def)
    next
      case None
      show ?thesis
      proof (cases r0)
        case None': None
        from op None st None' s show ?thesis
          by (auto simp: wt_curbackup_open_def Let_def curbackup_close_def WT_TRET_def
                split: if_splits option.splits)
      next
        case (Some x)
        with s have "\<not> curbackup_dup cba" and "\<not> curbackup_locker cba"
          and "session_backup_dup wa = session_backup_dup w"
          by (simp_all add: calloc_cursor_def)
        with op None st Some show ?thesis
          by (auto simp: wt_curbackup_open_def Let_def curbackup_close_def WT_TRET_def
                split: if_splits option.splits)
      qed
    qed
  qed
  from p1 p2 p3 p4 p5 show ?thesis by blast
qed

lemma duplicate_start_log_only_example:
  "fst (backup_start example_env busy_world calloc_cursor True log_target) = None \<and>
   log_only_targets (target_items log_target) \<and>
   inmem_unsupported_op example_env = None \<and> \<not> session_backup_dup busy_world \<and>
   target_gets no_targets = None \<and> target_items no_targets = [] \<and>
   target_end no_targets = WT_NOTFOUND \<and>
   backup_uri example_env busy_world
     (calloc_cursor\<lparr>cb_next := 0, cb_list := None, cb_list_next := 0\<rparr>) no_targets True =
     (None, busy_world, calloc_cursor, False, False) \<and>
   fst (backup_start example_env busy_world calloc_cursor True no_targets) =
     Some (EINVAL ''duplicate backup cursor must be for logs only.'') \<and>
   \<not> curbackup_dup (snd (snd (backup_start example_env busy_world calloc_cursor True no_targets))) \<and>
   backup_uri example_env busy_world
     (calloc_cursor\<lparr>cb_next := 0, cb_list := None, cb_list_next := 0\<rparr>) las_target True =
     (None, busy_world, calloc_cursor, True, False) \<and>
   fst (backup_start example_env busy_world calloc_cursor True las_target) =
     Some (EINVAL ''duplicate backup cursor must be for logs only.'') \<and>
   fst (wt_curbackup_open example_env busy_world True no_targets) \<noteq> None \<and>
   \<not> session_backup_dup (fst (snd (wt_curbackup_open example_env busy_world True no_targets)))"
proof -
  let ?s = "backup_start example_env busy_world calloc_cursor True no_targets"
  let ?o = "wt_curbackup_open example_env busy_world True no_targets"
  have im: "inmem_unsupported_op example_env = None" by (simp add: example_env_def)
  have nd: "\<not> session_backup_dup busy_world" by (simp add: busy_world_def)
  have nt: "target_gets no_targets = None" "target_items no_targets = []"
    "target_end no_targets = WT_NOTFOUND" by (simp_all add: no_targets_def)
  have cd: "\<not> curbackup_dup calloc_cursor" by (simp add: calloc_cursor_def)
  note t1 = duplicate_start_log_only [of example_env busy_world calloc_cursor log_target
      "busy_world\<lparr>session_backup_dup := True\<rparr>"
      "calloc_cursor\<lparr>cb_maxid := 1, cb_list := Some [Some ''WiredTigerLog.1'', None],
              cb_list_next := 1, curbackup_dup := True\<rparr>"]
  have a: "log_only_targets (target_items log_target)"
    by (rule t1 [THEN conjunct1, THEN mp, OF start_busy_dup_log, THEN conjunct1])
  note t2 = duplicate_start_log_only [where e = example_env and w = busy_world and cb = calloc_cursor
      and cfg = no_targets and wu = busy_world and cbu = calloc_cursor and found = False
      and ?w1.0 = "fst (snd ?s)" and ?cb1.0 = "snd (snd ?s)"
      and err = "EINVAL ''duplicate backup cursor must be for logs only.''"
      and r = "fst ?o" and ?w2.0 = "fst (snd ?o)" and c = "snd (snd ?o)"]
  have b: "fst ?s = Some (EINVAL ''duplicate backup cursor must be for logs only.'')"
    by (rule t2 [THEN conjunct2, THEN conjunct2, THEN conjunct1, THEN mp,
          OF conjI [OF im conjI [OF nd uri_busy_dup_none]]])
  have sb: "?s = (Some (EINVAL ''duplicate backup cursor must be for logs only.''),
      fst (snd ?s), snd (snd ?s))"
    by (subst b [symmetric]) simp
  have c0: "curbackup_dup (snd (snd ?s)) = curbackup_dup calloc_cursor"
    by (rule t2 [THEN conjunct2, THEN conjunct1, THEN mp, OF sb, THEN conjunct1])
  have c: "\<not> curbackup_dup (snd (snd ?s))" using c0 cd by simp
  have ob: "?o = (fst ?o, fst (snd ?o), snd (snd ?o))" by simp
  have of: "fst ?o \<noteq> None" by (simp add: open_busy_dup_none)
  have d0: "session_backup_dup (fst (snd ?o)) = session_backup_dup busy_world"
    by (rule t2 [THEN conjunct2, THEN conjunct2, THEN conjunct2, THEN conjunct2, THEN mp, OF ob,
          THEN conjunct2, THEN mp, OF of, THEN conjunct2])
  have d: "\<not> session_backup_dup (fst (snd ?o))" using d0 nd by simp
  have s1: "fst (backup_start example_env busy_world calloc_cursor True log_target) = None"
    by (simp add: start_busy_dup_log)
  have l: "fst (backup_start example_env busy_world calloc_cursor True las_target) =
      Some (EINVAL ''duplicate backup cursor must be for logs only.'')"
    by (rule duplicate_start_log_only [where e = example_env and w = busy_world
          and cb = calloc_cursor and cfg = las_target and wu = busy_world and cbu = calloc_cursor
          and found = True, THEN conjunct2, THEN conjunct2, THEN conjunct1, THEN mp,
          OF conjI [OF im conjI [OF nd uri_busy_dup_las]]])
  show ?thesis
    by (intro conjI s1 a im nd nt uri_busy_dup_none b c uri_busy_dup_las l of d)
qed


subsection \<open>One catalog entry\<close>

text \<open>
  Claim C5. For every catalog entry \<^verbatim>\<open>__backup_list_uri_append\<close> visits: the lookaside table
  is skipped, the snapshot and the list stay as they are (the visit returns 0 for it); for
  every other entry whose visit returns 0, the record of its name and its descriptor, each
  followed by a newline, is written to the snapshot stream; an entry with the system prefix
  is not appended to the list, nor is one without the \<open>file:\<close> prefix; an entry with the
  \<open>file:\<close> prefix (and not the system prefix) is appended, the prefix stripped.
\<close>

theorem C5_catalog_entry:
  "(name = WT_LAS_URI e \<longrightarrow>
      snd (backup_list_uri_append e w cb name) = (w, cb) \<and>
      (WT_PREFIX_MATCH name ''file:'' \<longrightarrow> fst (backup_list_uri_append e w cb name) = None)) \<and>
   (name \<noteq> WT_LAS_URI e \<and> backup_list_uri_append e w cb name = (None, w1, cb1) \<longrightarrow>
      (\<exists>f v. cb_bfs cb = Some f \<and> map_of (metadata e) name = Some v \<and>
         w1 = w\<lparr>files := (files w)(f \<mapsto>
                 (case files w f of None \<Rightarrow> [] | Some old \<Rightarrow> old) @
                 name @ [CHR 0x0A] @ v @ [CHR 0x0A])\<rparr>) \<and>
      (WT_PREFIX_MATCH name (WT_SYSTEM_PREFIX e) \<longrightarrow> cb1 = cb) \<and>
      (\<not> WT_PREFIX_MATCH name (WT_SYSTEM_PREFIX e) \<and> \<not> WT_PREFIX_MATCH name ''file:'' \<longrightarrow>
         cb1 = cb) \<and>
      (\<not> WT_PREFIX_MATCH name (WT_SYSTEM_PREFIX e) \<and> WT_PREFIX_MATCH name ''file:'' \<and>
       list_inv cb \<longrightarrow>
         file_list cb1 = file_list cb @ [drop (length ''file:'') name]))"
proof -
  have las: "name = WT_LAS_URI e \<Longrightarrow>
      snd (backup_list_uri_append e w cb name) = (w, cb) \<and>
      (WT_PREFIX_MATCH name ''file:'' \<longrightarrow> fst (backup_list_uri_append e w cb name) = None)"
    by (simp add: backup_list_uri_append_def)
  have rest: "name \<noteq> WT_LAS_URI e \<Longrightarrow> backup_list_uri_append e w cb name = (None, w1, cb1) \<Longrightarrow>
      (\<exists>f v. cb_bfs cb = Some f \<and> map_of (metadata e) name = Some v \<and>
         w1 = w\<lparr>files := (files w)(f \<mapsto>
                 (case files w f of None \<Rightarrow> [] | Some old \<Rightarrow> old) @
                 name @ [CHR 0x0A] @ v @ [CHR 0x0A])\<rparr>) \<and>
      (WT_PREFIX_MATCH name (WT_SYSTEM_PREFIX e) \<longrightarrow> cb1 = cb) \<and>
      (\<not> WT_PREFIX_MATCH name (WT_SYSTEM_PREFIX e) \<and> \<not> WT_PREFIX_MATCH name ''file:'' \<longrightarrow>
         cb1 = cb)"
    by (auto simp: backup_list_uri_append_def wt_metadata_search_def wt_fprintf_def
             split: if_splits option.splits sum.splits prod.splits)
  have app: "name \<noteq> WT_LAS_URI e \<Longrightarrow> backup_list_uri_append e w cb name = (None, w1, cb1) \<Longrightarrow>
      \<not> WT_PREFIX_MATCH name (WT_SYSTEM_PREFIX e) \<Longrightarrow> WT_PREFIX_MATCH name ''file:'' \<Longrightarrow>
      list_inv cb \<Longrightarrow> file_list cb1 = file_list cb @ [drop (length ''file:'') name]"
    using backup_list_uri_append_ok [of cb e w name w1 cb1]
    by (simp add: copied_def on_disk_name_def)
  from las rest app show ?thesis by blast
qed

theorem C5_catalog_entry_witness:
  "backup_list_uri_append example_env idle_world (calloc_cursor\<lparr>cb_bfs := Some ''WiredTiger.backup.tmp''\<rparr>)
      ''file:WiredTigerLAS.wt'' =
     (None, idle_world, calloc_cursor\<lparr>cb_bfs := Some ''WiredTiger.backup.tmp''\<rparr>) \<and>
   ''file:T.wt'' \<noteq> WT_LAS_URI example_env \<and>
   list_inv (calloc_cursor\<lparr>cb_bfs := Some ''WiredTiger.backup.tmp''\<rparr>) \<and>
   fst (backup_list_uri_append example_env idle_world
          (calloc_cursor\<lparr>cb_bfs := Some ''WiredTiger.backup.tmp''\<rparr>) ''file:T.wt'') = None \<and>
   file_list (snd (snd (backup_list_uri_append example_env idle_world
          (calloc_cursor\<lparr>cb_bfs := Some ''WiredTiger.backup.tmp''\<rparr>) ''file:T.wt''))) = [''T.wt''] \<and>
   fst (backup_list_uri_append example_env idle_world
          (calloc_cursor\<lparr>cb_bfs := Some ''WiredTiger.backup.tmp''\<rparr>) ''system:checkpoint'') = None \<and>
   snd (snd (backup_list_uri_append example_env idle_world
          (calloc_cursor\<lparr>cb_bfs := Some ''WiredTiger.backup.tmp''\<rparr>) ''system:checkpoint'')) =
     calloc_cursor\<lparr>cb_bfs := Some ''WiredTiger.backup.tmp''\<rparr>"
proof -
  let ?c = "calloc_cursor\<lparr>cb_bfs := Some ''WiredTiger.backup.tmp''\<rparr>"
  let ?T = "backup_list_uri_append example_env idle_world ?c ''file:T.wt''"
  let ?S = "backup_list_uri_append example_env idle_world ?c ''system:checkpoint''"
  have l: "''file:WiredTigerLAS.wt'' = WT_LAS_URI example_env"
    and lp: "WT_PREFIX_MATCH ''file:WiredTigerLAS.wt'' ''file:''"
    and nt: "''file:T.wt'' \<noteq> WT_LAS_URI example_env"
    and ns: "''system:checkpoint'' \<noteq> WT_LAS_URI example_env"
    and pt: "\<not> WT_PREFIX_MATCH ''file:T.wt'' (WT_SYSTEM_PREFIX example_env)"
       "WT_PREFIX_MATCH ''file:T.wt'' ''file:''"
    and ps: "WT_PREFIX_MATCH ''system:checkpoint'' (WT_SYSTEM_PREFIX example_env)"
    by (simp_all add: example_env_def WT_PREFIX_MATCH_def)
  have i: "list_inv ?c" by (simp add: list_inv_def terminated_def file_list_def calloc_cursor_def)
  have f0: "file_list ?c = []" by (simp add: file_list_def calloc_cursor_def)
  have rt: "fst ?T = None" and rs: "fst ?S = None"
    by (simp_all add: model_defs example_env_def)
  have et: "?T = (None, fst (snd ?T), snd (snd ?T))" using rt by (metis prod.collapse)
  have es: "?S = (None, fst (snd ?S), snd (snd ?S))" using rs by (metis prod.collapse)
  from C5_catalog_entry [of "''file:WiredTigerLAS.wt''" example_env idle_world ?c] l lp
  have a: "backup_list_uri_append example_env idle_world ?c ''file:WiredTigerLAS.wt'' =
      (None, idle_world, ?c)"
    by (metis prod.collapse)
  from C5_catalog_entry [of "''file:T.wt''" example_env idle_world ?c "fst (snd ?T)" "snd (snd ?T)"]
    nt et pt i f0
  have b: "file_list (snd (snd ?T)) = [''T.wt'']" by simp
  from C5_catalog_entry [of "''system:checkpoint''" example_env idle_world ?c "fst (snd ?S)"
      "snd (snd ?S)"] ns es ps
  have c: "snd (snd ?S) = ?c" by blast
  from a nt i rt b rs c show ?thesis by blast
qed


subsection \<open>Closing a duplicate cursor\<close>

text \<open>
  Claim C9. Closing a cursor with the duplicate flag returns 0 and changes, of the world,
  only the session's duplicate flag and \<^verbatim>\<open>session->bkp_cursor\<close>, and of the cursor only its own
  list (freed) and its duplicate flag: \<^verbatim>\<open>hot_backup_start\<close>, \<^verbatim>\<open>hot_backup_list\<close>, the files and
  the session's backup-cursor flag stay. A close of a cursor that is a duplicate or has no
  locker flag never runs the teardown \<^verbatim>\<open>__backup_stop\<close>.
\<close>

theorem C9_close_duplicate:
  "(curbackup_dup cb \<longrightarrow>
      curbackup_close e w cb =
        (None, w\<lparr>session_backup_dup := False, bkp_cursor_set := False\<rparr>,
         cb\<lparr>cb_list := None, curbackup_dup := False\<rparr>)) \<and>
   (curbackup_dup cb \<or> \<not> curbackup_locker cb \<longrightarrow>
      hot_backup_start (fst (snd (curbackup_close e w cb))) = hot_backup_start w \<and>
      hot_backup_list (fst (snd (curbackup_close e w cb))) = hot_backup_list w \<and>
      files (fst (snd (curbackup_close e w cb))) = files w \<and>
      session_backup_cursor (fst (snd (curbackup_close e w cb))) = session_backup_cursor w)"
  by (simp add: curbackup_close_def backup_free_def)

theorem C9_close_duplicate_witness:
  "curbackup_dup (calloc_cursor\<lparr>cb_list := Some [Some ''WiredTigerLog.1'', None],
                                cb_list_next := 1, curbackup_dup := True\<rparr>) \<and>
   curbackup_close example_env (busy_world\<lparr>session_backup_dup := True\<rparr>)
     (calloc_cursor\<lparr>cb_list := Some [Some ''WiredTigerLog.1'', None], cb_list_next := 1,
                    curbackup_dup := True\<rparr>) =
     (None, busy_world\<lparr>bkp_cursor_set := False\<rparr>, calloc_cursor\<lparr>cb_list_next := 1\<rparr>) \<and>
   \<not> curbackup_locker calloc_cursor \<and>
   hot_backup_start (fst (snd (curbackup_close example_env busy_world calloc_cursor))) = 7"
proof -
  let ?c = "calloc_cursor\<lparr>cb_list := Some [Some ''WiredTigerLog.1'', None],
                                cb_list_next := 1, curbackup_dup := True\<rparr>"
  let ?w = "busy_world\<lparr>session_backup_dup := True\<rparr>"
  have d: "curbackup_dup ?c" by simp
  have l: "\<not> curbackup_locker calloc_cursor" by (simp add: calloc_cursor_def)
  from C9_close_duplicate [of ?c example_env ?w] d
  have "curbackup_close example_env ?w ?c =
        (None, ?w\<lparr>session_backup_dup := False, bkp_cursor_set := False\<rparr>,
         ?c\<lparr>cb_list := None, curbackup_dup := False\<rparr>)" by blast
  then have a: "curbackup_close example_env ?w ?c =
     (None, busy_world\<lparr>bkp_cursor_set := False\<rparr>, calloc_cursor\<lparr>cb_list_next := 1\<rparr>)"
    by (simp add: busy_world_def calloc_cursor_def)
  from C9_close_duplicate [of calloc_cursor example_env busy_world] l
  have "hot_backup_start (fst (snd (curbackup_close example_env busy_world calloc_cursor))) =
        hot_backup_start busy_world" by blast
  then have b: "hot_backup_start (fst (snd (curbackup_close example_env busy_world calloc_cursor))) = 7"
    by (simp add: busy_world_def)
  from d a l b show ?thesis by blast
qed


end
